theory Spec2Isabelle
  imports Main
begin

section \<open>Text of a contract: characters and Python's string helpers\<close>

text \<open>
  The program is \<^verbatim>\<open>src/app.py\<close>. Its texts are Python \<^verbatim>\<open>str\<close> values. Every character
  that the program itself writes (the twelve patterns, the messages) has a code point below
  256, so a text is modelled as a \<^typ>\<open>string\<close> whose \<^typ>\<open>char\<close>s are the code points
  0..255 (Latin-1), one \<^typ>\<open>char\<close> per Python character; \<open>length\<close> is Python's \<^verbatim>\<open>len\<close>.
  The character predicates below are Python's on that range.
\<close>

definition cp :: "char \<Rightarrow> nat" where
  "cp c = of_char c"

text \<open>\<^verbatim>\<open>str.isspace\<close>, which \<^verbatim>\<open>str.split()\<close>, \<^verbatim>\<open>str.strip()\<close> and the pattern escape
  \<^verbatim>\<open>\s\<close> all use: TAB..CR, FS..US, SPACE, NEL and NBSP.\<close>

definition py_isspace :: "char \<Rightarrow> bool" where
  "py_isspace c = (let n = cp c in
     (9 \<le> n \<and> n \<le> 13) \<or> (28 \<le> n \<and> n \<le> 32) \<or> n = 133 \<or> n = 160)"

text \<open>\<^verbatim>\<open>\d\<close>: the decimal digits (category Nd), below 256 only \<^verbatim>\<open>0\<close>..\<^verbatim>\<open>9\<close>.\<close>

definition py_isdecimal :: "char \<Rightarrow> bool" where
  "py_isdecimal c = (let n = cp c in 48 \<le> n \<and> n \<le> 57)"

text \<open>\<^verbatim>\<open>str.isalnum\<close>: letters, decimal digits, and the superscripts and fractions that
  are digits or numerics for Python.\<close>

definition py_isalnum :: "char \<Rightarrow> bool" where
  "py_isalnum c = (let n = cp c in
     (48 \<le> n \<and> n \<le> 57) \<or> (65 \<le> n \<and> n \<le> 90) \<or> (97 \<le> n \<and> n \<le> 122)
     \<or> n = 170 \<or> n = 178 \<or> n = 179 \<or> n = 181 \<or> n = 185 \<or> n = 186
     \<or> (188 \<le> n \<and> n \<le> 190)
     \<or> (192 \<le> n \<and> n \<le> 214) \<or> (216 \<le> n \<and> n \<le> 246) \<or> (248 \<le> n \<and> n \<le> 255))"

text \<open>\<^verbatim>\<open>\w\<close>: alphanumeric or underscore.\<close>

definition py_isword :: "char \<Rightarrow> bool" where
  "py_isword c = (py_isalnum c \<or> c = CHR ''_'')"

text \<open>Lower case of one character: \<^verbatim>\<open>A\<close>..\<^verbatim>\<open>Z\<close> and the accented capitals
  U+00C0..U+00DE (without the multiplication sign U+00D7) move up by 32.\<close>

definition py_tolower :: "char \<Rightarrow> char" where
  "py_tolower c = (let n = cp c in
     if (65 \<le> n \<and> n \<le> 90) \<or> (192 \<le> n \<and> n \<le> 222 \<and> n \<noteq> 215)
     then char_of (n + 32) else c)"

definition lower :: "string \<Rightarrow> string" where
  "lower s = map py_tolower s"

text \<open>\<^verbatim>\<open>s.endswith(suf)\<close> and \<^verbatim>\<open>s.startswith(pre)\<close>: exact comparison of characters.\<close>

definition endswith :: "string \<Rightarrow> string \<Rightarrow> bool" where
  "endswith s suf = (length suf \<le> length s \<and> drop (length s - length suf) s = suf)"

definition startswith :: "string \<Rightarrow> string \<Rightarrow> bool" where
  "startswith s pre = (take (length pre) s = pre)"

text \<open>\<^verbatim>\<open>s.strip()\<close>: white space removed at both ends.\<close>

definition strip :: "string \<Rightarrow> string" where
  "strip s = rev (dropWhile py_isspace (rev (dropWhile py_isspace s)))"

text \<open>\<^verbatim>\<open>s.split()\<close>: the maximal runs of characters that are not white space.\<close>

function split_ws :: "string \<Rightarrow> string list" where
  "split_ws s =
     (case dropWhile py_isspace s of
        [] \<Rightarrow> []
      | c # cs \<Rightarrow> (c # takeWhile (\<lambda>x. \<not> py_isspace x) cs)
                  # split_ws (dropWhile (\<lambda>x. \<not> py_isspace x) cs))"
  by pat_completeness auto
termination
proof (relation "measure length")
  show "wf (measure length)" by simp
next
  fix s :: string and c cs
  assume a: "dropWhile py_isspace s = c # cs"
  have "length (dropWhile (\<lambda>x. \<not> py_isspace x) cs) \<le> length cs"
    by (rule length_dropWhile_le)
  moreover have "length (c # cs) \<le> length s"
    using a length_dropWhile_le [of py_isspace s] by simp
  ultimately show "(dropWhile (\<lambda>x. \<not> py_isspace x) cs, s) \<in> measure length"
    by simp
qed

declare split_ws.simps [simp del]

text \<open>\<^verbatim>\<open>sep.join(parts)\<close>.\<close>

fun join :: "string \<Rightarrow> string list \<Rightarrow> string" where
  "join sep [] = []"
| "join sep [x] = x"
| "join sep (x # y # ys) = x @ sep @ join sep (y # ys)"

section \<open>The regular expressions of the pattern table\<close>

text \<open>
  \<^verbatim>\<open>analizar_contrato\<close> hands each pattern to \<^verbatim>\<open>re.search\<close> with the flags
  \<^verbatim>\<open>re.IGNORECASE | re.DOTALL\<close>. The patterns use literals, character sets, the escapes
  \<^verbatim>\<open>\s \S \d \w\<close>, the dot, alternation, optional groups, capture groups, one kind of
  look-ahead, and repetition (\<^verbatim>\<open>* + {n} {m,n} *?\<close>) of single characters only. That
  fragment is the syntax below; \<open>ms\<close> is the backtracking search of \<^verbatim>\<open>re\<close> on it, as the
  list of all ways to match in the order in which backtracking tries them. Where a pattern
  of the source is quoted, a character beyond ASCII is written \<^verbatim>\<open>\xNN\<close> with its code
  point.
\<close>

datatype cls = CChar char | CDigit | CSpace | CNonSpace | CWord

datatype atom = AnyChar | OneOf "cls list" | NoneOf "cls list"

datatype regex =
    Eps
  | Sym atom
  | Seq regex regex
  | Alt regex regex
  | Opt regex
  | Rep bool nat "nat option" atom
  | Group nat regex
  | Ahead regex

text \<open>With \<^verbatim>\<open>IGNORECASE\<close> the character read is lowered and compared with the lowered
  literal; the classes are tested on the lowered character.\<close>

fun cls_match :: "cls \<Rightarrow> char \<Rightarrow> bool" where
  "cls_match (CChar p) x = (x = py_tolower p)"
| "cls_match CDigit x = py_isdecimal x"
| "cls_match CSpace x = py_isspace x"
| "cls_match CNonSpace x = (\<not> py_isspace x)"
| "cls_match CWord x = py_isword x"

text \<open>With \<^verbatim>\<open>DOTALL\<close> the dot matches every character, the newline too.\<close>

fun atom_match :: "atom \<Rightarrow> char \<Rightarrow> bool" where
  "atom_match AnyChar c = True"
| "atom_match (OneOf cs) c = list_ex (\<lambda>i. cls_match i (py_tolower c)) cs"
| "atom_match (NoneOf cs) c = (\<not> list_ex (\<lambda>i. cls_match i (py_tolower c)) cs)"

text \<open>The numbers of characters a repetition \<open>Rep greedy lo hi a\<close> may take from \<open>s\<close>, in
  the order tried: a greedy one from the longest run down to \<open>lo\<close>, a lazy one from \<open>lo\<close> up.\<close>

definition rep_counts :: "bool \<Rightarrow> nat \<Rightarrow> nat option \<Rightarrow> atom \<Rightarrow> string \<Rightarrow> nat list" where
  "rep_counts greedy lo hi a s =
     (let run = length (takeWhile (atom_match a) s);
          top = (case hi of None \<Rightarrow> run | Some h \<Rightarrow> min h run);
          ks = [lo ..< Suc top]
      in if greedy then rev ks else ks)"

type_synonym caps = "string option list"

text \<open>A state is the text still to read and the groups captured so far. \<open>Group n\<close> is
  Python's group number \<open>n\<close>, kept at index \<open>n - 1\<close>.\<close>

fun ms :: "regex \<Rightarrow> string \<times> caps \<Rightarrow> (string \<times> caps) list" where
  "ms Eps st = [st]"
| "ms (Sym a) (s, c) =
     (case s of [] \<Rightarrow> [] | x # xs \<Rightarrow> if atom_match a x then [(xs, c)] else [])"
| "ms (Seq r1 r2) st = concat (map (ms r2) (ms r1 st))"
| "ms (Alt r1 r2) st = ms r1 st @ ms r2 st"
| "ms (Opt r) st = ms r st @ [st]"
| "ms (Rep greedy lo hi a) (s, c) = map (\<lambda>k. (drop k s, c)) (rep_counts greedy lo hi a s)"
| "ms (Group n r) (s, c) =
     map (\<lambda>(s', c'). (s', c'[n - 1 := Some (take (length s - length s') s)])) (ms r (s, c))"
| "ms (Ahead r) st = (case ms r st of [] \<Rightarrow> [] | _ # _ \<Rightarrow> [st])"

text \<open>\<^verbatim>\<open>re.search\<close>: the first way to match at the leftmost position that has one;
  \<open>ng\<close> is the number of groups of the pattern and the result is \<^verbatim>\<open>match.groups()\<close>,
  \<open>None\<close> inside it for a group that took no part.\<close>

fun re_search :: "regex \<Rightarrow> nat \<Rightarrow> string \<Rightarrow> caps option" where
  "re_search r ng [] =
     (case ms r ([], replicate ng None) of [] \<Rightarrow> None | st # _ \<Rightarrow> Some (snd st))"
| "re_search r ng (x # xs) =
     (case ms r (x # xs, replicate ng None) of
        [] \<Rightarrow> re_search r ng xs
      | st # _ \<Rightarrow> Some (snd st))"

subsection \<open>Writing the patterns\<close>

definition cat :: "regex list \<Rightarrow> regex" where
  "cat rs = foldr Seq rs Eps"

definition lit :: "string \<Rightarrow> regex" where
  "lit s = cat (map (\<lambda>c. Sym (OneOf [CChar c])) s)"

definition alts :: "regex \<Rightarrow> regex list \<Rightarrow> regex" where
  "alts r rs = foldr Alt (butlast (r # rs)) (last (r # rs))"

definition star :: "atom \<Rightarrow> regex" where
  "star a = Rep True 0 None a"

definition plus1 :: "atom \<Rightarrow> regex" where
  "plus1 a = Rep True 1 None a"

definition lazy_star :: "atom \<Rightarrow> regex" where
  "lazy_star a = Rep False 0 None a"

definition times :: "nat \<Rightarrow> nat \<Rightarrow> atom \<Rightarrow> regex" where
  "times lo hi a = Rep True lo (Some hi) a"

definition sp :: atom where
  "sp = OneOf [CSpace]"

definition dg :: atom where
  "dg = OneOf [CDigit]"

definition wd :: atom where
  "wd = OneOf [CWord]"

definition all_chars :: atom where
  "all_chars = OneOf [CSpace, CNonSpace]"

text \<open>\<^verbatim>\<open>N[\xb0\xba.\sro]\<close>: the degree sign U+00B0 and the ordinal indicator U+00BA.\<close>

definition nro :: atom where
  "nro = OneOf [CChar (CHR 0xB0), CChar (CHR 0xBA), CChar CHR ''.'', CSpace,
                CChar CHR ''r'', CChar CHR ''o'']"

definition colon_sp :: atom where
  "colon_sp = OneOf [CChar CHR '':'', CSpace]"

text \<open>\<^verbatim>\<open>CL[\xc1A]USULA\<close>, \<^verbatim>\<open>[o\xf3]\<close>, \<^verbatim>\<open>[\xfau]\<close>, \<^verbatim>\<open>[O\xd3]\<close>.\<close>

definition clausula :: regex where
  "clausula = cat [lit ''CL'', Sym (OneOf [CChar (CHR 0xC1), CChar CHR ''A'']), lit ''USULA'']"

definition o_acc :: regex where
  "o_acc = Sym (OneOf [CChar CHR ''o'', CChar (CHR 0xF3)])"

definition u_acc :: regex where
  "u_acc = Sym (OneOf [CChar (CHR 0xFA), CChar CHR ''u''])"

definition O_acc :: regex where
  "O_acc = Sym (OneOf [CChar CHR ''O'', CChar (CHR 0xD3)])"

subsection \<open>The twelve patterns of \<^verbatim>\<open>analizar_contrato\<close>\<close>

text \<open>\<^verbatim>\<open>(?:CONTRATO|ORDEN DE SERVICIO|ORDEN DE COMPRA)\s*(?:N[\xb0\xba.\sro]+[:\s]*)?([\w\d\-\/.]+)\<close>\<close>

definition p_num_contrato :: regex where
  "p_num_contrato = cat
     [alts (lit ''CONTRATO'') [lit ''ORDEN DE SERVICIO'', lit ''ORDEN DE COMPRA''],
      star sp,
      Opt (cat [lit ''N'', plus1 nro, star colon_sp]),
      Group 1 (plus1 (OneOf [CWord, CDigit, CChar CHR ''-'', CChar CHR ''/'', CChar CHR ''.'']))]"

text \<open>\<^verbatim>\<open>(?:en la ciudad de|firmado el|celebrado a los|Fecha:|a los)\s*.*?(\d{1,2}\s+(?:de\s+)?\w+\s+(?:de\s+)?\d{4})\<close>\<close>

definition p_fecha_suscripcion_contrato :: regex where
  "p_fecha_suscripcion_contrato = cat
     [alts (lit ''en la ciudad de'')
        [lit ''firmado el'', lit ''celebrado a los'', lit ''Fecha:'', lit ''a los''],
      star sp,
      lazy_star AnyChar,
      Group 1 (cat
        [times 1 2 dg, plus1 sp, Opt (cat [lit ''de'', plus1 sp]), plus1 wd, plus1 sp,
         Opt (cat [lit ''de'', plus1 sp]), times 4 4 dg])]"

text \<open>\<^verbatim>\<open>(Adjudicaci[o\xf3]n Simplificada|Licitaci[o\xf3]n P[\xfau]blica|Concurso P[\xfau]blico)(?:\s*N[\xb0\xba.\sro]+[:\s]*([\w\d\-\/]+))?\<close>\<close>

definition p_proceso_seleccion :: regex where
  "p_proceso_seleccion = cat
     [Group 1 (alts (cat [lit ''Adjudicaci'', o_acc, lit ''n Simplificada''])
        [cat [lit ''Licitaci'', o_acc, lit ''n P'', u_acc, lit ''blica''],
         cat [lit ''Concurso P'', u_acc, lit ''blico'']]),
      Opt (cat
        [star sp, lit ''N'', plus1 nro, star colon_sp,
         Group 2 (plus1 (OneOf [CWord, CDigit, CChar CHR ''-'', CChar CHR ''/'']))])]"

text \<open>\<^verbatim>\<open>vigencia.*?\s+hasta\s+(.*?)(?:\.|\n|CL[\xc1A]USULA)\<close>\<close>

definition p_vigencia_final :: regex where
  "p_vigencia_final = cat
     [lit ''vigencia'', lazy_star AnyChar, plus1 sp, lit ''hasta'', plus1 sp,
      Group 1 (lazy_star AnyChar),
      alts (lit ''.'') [lit [CHR 0x0A], clausula]]"

text \<open>\<^verbatim>\<open>(?:Monto|Valor Total|asciende a)\s*.*?(?:S\/\.?|R\$|USD)?\s*([\d,]+(?:\.\d{2})?)\<close>\<close>

definition p_monto_contratado_total :: regex where
  "p_monto_contratado_total = cat
     [alts (lit ''Monto'') [lit ''Valor Total'', lit ''asciende a''],
      star sp,
      lazy_star AnyChar,
      Opt (alts (cat [lit ''S/'', Opt (lit ''.'')]) [lit ''R$'', lit ''USD'']),
      star sp,
      Group 1 (cat
        [plus1 (OneOf [CDigit, CChar CHR '','']),
         Opt (cat [lit ''.'', times 2 2 dg])])]"

text \<open>\<^verbatim>\<open>CONTRATISTA[\s\S]*?RUC\s*N[\xb0\xba.\sro]*\s*(\d{11})\<close>\<close>

definition p_ruc_contratista :: regex where
  "p_ruc_contratista = cat
     [lit ''CONTRATISTA'', lazy_star all_chars, lit ''RUC'', star sp, lit ''N'', star nro,
      star sp, Group 1 (times 11 11 dg)]"

text \<open>\<^verbatim>\<open>(?:LA\s+ENTIDAD|CONTRATANTE)[\s\S]*?RUC\s*N[\xb0\xba.\sro]*\s*(\d{11})\<close>\<close>

definition p_ruc_entidad :: regex where
  "p_ruc_entidad = cat
     [alts (cat [lit ''LA'', plus1 sp, lit ''ENTIDAD'']) [lit ''CONTRATANTE''],
      lazy_star all_chars, lit ''RUC'', star sp, lit ''N'', star nro,
      star sp, Group 1 (times 11 11 dg)]"

text \<open>\<^verbatim>\<open>RESOLUCI[O\xd3]N\s*(?:DECANAL|RECTORAL|DIRECTORAL)?\s*N[\xb0\xba.\sro]+[:\s]*([\w\d\-\/.-]+)\<close>\<close>

definition p_resolucion :: regex where
  "p_resolucion = cat
     [lit ''RESOLUCI'', O_acc, lit ''N'', star sp,
      Opt (alts (lit ''DECANAL'') [lit ''RECTORAL'', lit ''DIRECTORAL'']),
      star sp, lit ''N'', plus1 nro, star colon_sp,
      Group 1 (plus1 (OneOf [CWord, CDigit, CChar CHR ''-'', CChar CHR ''/'', CChar CHR ''.'',
                             CChar CHR ''-'']))]"

text \<open>\<^verbatim>\<open>(?:\xcdtem|Item)\s*(?:N[\xb0\xba.\sro]+)?\s*[:]?\s*(\d+)\<close>\<close>

definition p_num_item :: regex where
  "p_num_item = cat
     [alts (cat [lit [CHR 0xCD], lit ''tem'']) [lit ''Item''],
      star sp,
      Opt (cat [lit ''N'', plus1 nro]),
      star sp,
      Opt (Sym (OneOf [CChar CHR '':''])),
      star sp,
      Group 1 (plus1 dg)]"

text \<open>\<^verbatim>\<open>CL[\xc1A]USULA\s+PRIMERA\s*:\s*OBJETO[\s\S]*?([\s\S]*?)(?=CL[\xc1A]USULA\s+SEGUNDA|II\.\s+BASE\s+LEGAL)\<close>\<close>

definition p_objeto_contrato :: regex where
  "p_objeto_contrato = cat
     [clausula, plus1 sp, lit ''PRIMERA'', star sp, lit '':'', star sp, lit ''OBJETO'',
      lazy_star all_chars,
      Group 1 (lazy_star all_chars),
      Ahead (alts (cat [clausula, plus1 sp, lit ''SEGUNDA''])
        [cat [lit ''II.'', plus1 sp, lit ''BASE'', plus1 sp, lit ''LEGAL'']])]"

text \<open>\<^verbatim>\<open>PLAZO\s+DE\s+(?:EJECUCI[O\xd3]N|ENTREGA)[\s\S]*?([\s\S]*?)(?=CL[\xc1A]USULA|INICIO\s+DEL\s+PLAZO)\<close>\<close>

definition p_plazo_ejecucion :: regex where
  "p_plazo_ejecucion = cat
     [lit ''PLAZO'', plus1 sp, lit ''DE'', plus1 sp,
      alts (cat [lit ''EJECUCI'', O_acc, lit ''N'']) [lit ''ENTREGA''],
      lazy_star all_chars,
      Group 1 (lazy_star all_chars),
      Ahead (alts clausula
        [cat [lit ''INICIO'', plus1 sp, lit ''DEL'', plus1 sp, lit ''PLAZO'']])]"

text \<open>\<^verbatim>\<open>representad[oa]\s+(?:legalmente\s+)?por\s+([^,]+(?:,\s*Jr\.|,\s*S\.A\.C\.)?),\<close>\<close>

definition p_representante_legal_contratista :: regex where
  "p_representante_legal_contratista = cat
     [lit ''representad'', Sym (OneOf [CChar CHR ''o'', CChar CHR ''a'']), plus1 sp,
      Opt (cat [lit ''legalmente'', plus1 sp]),
      lit ''por'', plus1 sp,
      Group 1 (cat
        [plus1 (NoneOf [CChar CHR '','']),
         Opt (alts (cat [lit '','', star sp, lit ''Jr.''])
                [cat [lit '','', star sp, lit ''S.A.C.'']])]),
      lit '','']"

text \<open>The dictionary \<^verbatim>\<open>patrones\<close>, in the order of the source: key, pattern, number of
  capture groups of the pattern.\<close>

definition patrones :: "(string \<times> regex \<times> nat) list" where
  "patrones =
     [(''num_contrato'', p_num_contrato, 1),
      (''fecha_suscripcion_contrato'', p_fecha_suscripcion_contrato, 1),
      (''proceso_seleccion'', p_proceso_seleccion, 2),
      (''vigencia_final'', p_vigencia_final, 1),
      (''monto_contratado_total'', p_monto_contratado_total, 1),
      (''ruc_contratista'', p_ruc_contratista, 1),
      (''ruc_entidad'', p_ruc_entidad, 1),
      (''resolucion'', p_resolucion, 1),
      (''num_item'', p_num_item, 1),
      (''objeto_contrato'', p_objeto_contrato, 1),
      (''plazo_ejecucion'', p_plazo_ejecucion, 1),
      (''representante_legal_contratista'', p_representante_legal_contratista, 1)]"

section \<open>\<^verbatim>\<open>analizar_contrato\<close>\<close>

text \<open>\<^verbatim>\<open>[g for g in match.groups() if g is not None]\<close>\<close>

definition grupos_validos :: "caps \<Rightarrow> string list" where
  "grupos_validos gs = map the (filter (\<lambda>g. g \<noteq> None) gs)"

text \<open>\<^verbatim>\<open>' '.join(resultado.split()).strip()\<close>\<close>

definition resultado_limpio :: "string \<Rightarrow> string" where
  "resultado_limpio resultado = strip (join '' '' (split_ws resultado))"

text \<open>The value stored under one key: the cleaned join of the groups, or the sentinel of
  the source, the string \<^verbatim>\<open>No encontrado\<close>.\<close>

definition valor_campo :: "regex \<Rightarrow> nat \<Rightarrow> string \<Rightarrow> string" where
  "valor_campo patron ng texto_contrato =
     (case re_search patron ng texto_contrato of
        Some gs \<Rightarrow> resultado_limpio (join '' '' (grupos_validos gs))
      | None \<Rightarrow> ''No encontrado'')"

text \<open>The dictionary \<^verbatim>\<open>datos_extraidos\<close> as the list of its items in insertion order (the
  keys of \<open>patrones\<close> are distinct, so each assignment adds a new item at the end).\<close>

definition analizar_contrato :: "string \<Rightarrow> (string \<times> string) list" where
  "analizar_contrato texto_contrato =
     map (\<lambda>(clave, patron, ng). (clave, valor_campo patron ng texto_contrato)) patrones"

section \<open>\<^verbatim>\<open>extraer_texto_con_ocr\<close>\<close>

text \<open>
  PyMuPDF, Pillow and Tesseract are outside the program. What they answer is data of the
  model: an exception is the string \<^verbatim>\<open>str(e)\<close> of its message; a page carries the outcome of
  \<^verbatim>\<open>pagina.get_text()\<close> and the outcome of the OCR steps (\<^verbatim>\<open>get_pixmap\<close>, \<^verbatim>\<open>tobytes\<close>,
  \<^verbatim>\<open>Image.open\<close>, \<^verbatim>\<open>image_to_string\<close>: the text, or the first exception one of them
  raises); a document carries its pages and the outcome of \<^verbatim>\<open>doc.close()\<close>.
\<close>

type_synonym exn = string

type_synonym bytes = "char list"

record pagina =
  get_text :: "exn + string"
  ocr :: "exn + string"

record documento =
  paginas :: "pagina list"
  close :: "exn option"

text \<open>What the function does besides returning: it calls the OCR for a page (recorded with
  the index \<^verbatim>\<open>num_pagina\<close>) and it prints lines. \<^verbatim>\<open>print\<close> writes to the standard output
  of the process and can raise there (a \<^verbatim>\<open>UnicodeEncodeError\<close> when the encoding of the
  output has no code for a character of the line, a closed pipe): \<open>imprimir\<close> below stands for
  \<^verbatim>\<open>print\<close> and gives \<open>None\<close> when the line was written and the exception otherwise;
  whether a line can be written is taken to depend on the line alone. The event \<open>Print\<close>
  records a line that was written.\<close>

datatype evento = OcrCall nat | Print string

text \<open>\<^verbatim>\<open>str(n)\<close> of a natural number, for the page number of the warning.\<close>

fun str_nat :: "nat \<Rightarrow> string" where
  "str_nat n =
     (if n < 10 then [char_of (48 + n)] else str_nat (n div 10) @ [char_of (48 + n mod 10)])"

declare str_nat.simps [simp del]

definition advertencia :: "nat \<Rightarrow> exn \<Rightarrow> string" where
  "advertencia num_pagina ocr_error =
     ''Advertencia: OCR fall'' @ [CHR 0xF3] @ '' en la p'' @ [CHR 0xE1] @ ''gina ''
       @ str_nat (num_pagina + 1) @ '': '' @ ocr_error"

text \<open>The body of the loop over the pages: the new \<^verbatim>\<open>texto_completo\<close>, or the exception
  that leaves the loop, and the events of this page. In the handler of an OCR failure the
  warning is printed first; when that \<^verbatim>\<open>print\<close> raises, the handler is left before the
  direct text is appended.\<close>

definition procesar_pagina ::
  "(string \<Rightarrow> exn option) \<Rightarrow> nat \<Rightarrow> pagina \<Rightarrow> string \<Rightarrow> (exn + string) \<times> evento list" where
  "procesar_pagina imprimir num_pagina pag texto_completo =
     (case get_text pag of
        Inl e \<Rightarrow> (Inl e, [])
      | Inr crudo \<Rightarrow>
          (let texto_directo = strip crudo in
           if length texto_directo < 100 then
             (case ocr pag of
                Inr texto_ocr \<Rightarrow>
                  (Inr (texto_completo @ texto_ocr @ [CHR 0x0A]), [OcrCall num_pagina])
              | Inl ocr_error \<Rightarrow>
                  (case imprimir (advertencia num_pagina ocr_error) of
                     Some e \<Rightarrow> (Inl e, [OcrCall num_pagina])
                   | None \<Rightarrow>
                       (Inr (texto_completo @ texto_directo @ [CHR 0x0A]),
                        [OcrCall num_pagina, Print (advertencia num_pagina ocr_error)])))
           else (Inr (texto_completo @ texto_directo @ [CHR 0x0A]), [])))"

fun bucle_paginas ::
  "(string \<Rightarrow> exn option) \<Rightarrow> nat \<Rightarrow> pagina list \<Rightarrow> string \<Rightarrow> (exn + string) \<times> evento list" where
  "bucle_paginas imprimir num_pagina [] texto_completo = (Inr texto_completo, [])"
| "bucle_paginas imprimir num_pagina (pag # resto) texto_completo =
     (case procesar_pagina imprimir num_pagina pag texto_completo of
        (Inl e, evs) \<Rightarrow> (Inl e, evs)
      | (Inr texto', evs) \<Rightarrow>
          (case bucle_paginas imprimir (Suc num_pagina) resto texto' of
             (r, evs') \<Rightarrow> (r, evs @ evs')))"

text \<open>The outer \<^verbatim>\<open>except\<close>: the message is built and printed, then returned beside
  \<^verbatim>\<open>None\<close>. When that \<^verbatim>\<open>print\<close> raises, its exception leaves the function: the result
  \<open>Inl\<close> is an exception raised to the caller, \<open>Inr\<close> the returned tuple.\<close>

definition error_critico :: "exn \<Rightarrow> string" where
  "error_critico e = ''Error Cr'' @ [CHR 0xED] @ ''tico al procesar el PDF: '' @ e"

definition fallo ::
  "(string \<Rightarrow> exn option) \<Rightarrow> exn \<Rightarrow> evento list \<Rightarrow>
     (exn + string option \<times> string option) \<times> evento list" where
  "fallo imprimir e evs =
     (case imprimir (error_critico e) of
        Some e' \<Rightarrow> (Inl e', evs)
      | None \<Rightarrow> (Inr (None, Some (error_critico e)), evs @ [Print (error_critico e)]))"

text \<open>The function: \<open>abrir\<close> stands for \<^verbatim>\<open>fitz.open(stream=..., filetype="pdf")\<close>. The
  result is the returned tuple, or the exception raised to the caller, and the events.\<close>

definition extraer_texto_con_ocr ::
  "(bytes \<Rightarrow> exn + documento) \<Rightarrow> (string \<Rightarrow> exn option) \<Rightarrow> bytes \<Rightarrow>
     (exn + string option \<times> string option) \<times> evento list" where
  "extraer_texto_con_ocr abrir imprimir stream_pdf =
     (case abrir stream_pdf of
        Inl e \<Rightarrow> fallo imprimir e []
      | Inr doc \<Rightarrow>
          (case bucle_paginas imprimir 0 (paginas doc) [] of
             (Inl e, evs) \<Rightarrow> fallo imprimir e evs
           | (Inr texto_completo, evs) \<Rightarrow>
               (case close doc of
                  Some e \<Rightarrow> fallo imprimir e evs
                | None \<Rightarrow> (Inr (Some texto_completo, None), evs))))"

section \<open>\<^verbatim>\<open>process_files\<close>\<close>

text \<open>
  An uploaded file has its name and the outcome of \<^verbatim>\<open>file.read()\<close>. The libraries that
  interpret bytes are the environment: \<^verbatim>\<open>fitz.open\<close>, \<^verbatim>\<open>zipfile.is_zipfile\<close>, and
  \<^verbatim>\<open>zipfile.ZipFile\<close>, which raises or gives the names of \<^verbatim>\<open>namelist()\<close>, each with the
  outcome of \<^verbatim>\<open>zip_ref.read(item_name)\<close>; and the standard output, \<open>py_print\<close>. An
  exception that leaves \<^verbatim>\<open>extraer_texto_con_ocr\<close> is caught by the \<^verbatim>\<open>except\<close> around the
  call.
\<close>

record archivo =
  filename :: string
  leer :: "exn + bytes"

record entorno =
  fitz_open :: "bytes \<Rightarrow> exn + documento"
  is_zipfile :: "bytes \<Rightarrow> bool"
  zip_file :: "bytes \<Rightarrow> exn + (string \<times> (exn + bytes)) list"
  py_print :: "string \<Rightarrow> exn option"

type_synonym registro = "(string \<times> string) list"

type_synonym acumulado = "registro list \<times> string list"

definition comilla :: "string \<Rightarrow> string" where
  "comilla s = [CHR 0x27] @ s @ [CHR 0x27]"

text \<open>\<^verbatim>\<open>if error:\<close> of Python: the error is neither \<^verbatim>\<open>None\<close> nor the empty string.\<close>

definition hay_error :: "string option \<Rightarrow> bool" where
  "hay_error error = (case error of None \<Rightarrow> False | Some msg \<Rightarrow> msg \<noteq> [])"

text \<open>\<^verbatim>\<open>datos = analizar_contrato(texto); datos['Archivo'] = nombre\<close>. With \<^verbatim>\<open>texto = None\<close>
  the search raises a \<^verbatim>\<open>TypeError\<close>; \<open>Archivo\<close> is not a key of \<open>patrones\<close>, so the
  assignment adds the item at the end.\<close>

definition registrar :: "string \<Rightarrow> string option \<Rightarrow> exn + registro" where
  "registrar nombre texto =
     (case texto of
        None \<Rightarrow> Inl ''expected string or bytes-like object''
      | Some t \<Rightarrow> Inr (analizar_contrato t @ [(''Archivo'', nombre)]))"

text \<open>The filter on the names inside an archive.\<close>

definition es_pdf_del_zip :: "string \<Rightarrow> bool" where
  "es_pdf_del_zip item_name =
     (endswith (lower item_name) ''.pdf'' \<and> \<not> startswith item_name ''__MACOSX'')"

definition error_procesando :: "string \<Rightarrow> string \<Rightarrow> exn \<Rightarrow> string" where
  "error_procesando item_name nombre_archivo e_pdf =
     ''Error procesando '' @ comilla item_name @ '' (dentro de '' @ nombre_archivo @ ''): ''
       @ e_pdf"

text \<open>The \<^verbatim>\<open>try\<close> block for one accepted name of the archive.\<close>

definition procesar_pdf_del_zip ::
  "entorno \<Rightarrow> string \<Rightarrow> string \<times> (exn + bytes) \<Rightarrow> acumulado \<Rightarrow> acumulado" where
  "procesar_pdf_del_zip env nombre_archivo item ac =
     (case item of (item_name, leido) \<Rightarrow>
      (case ac of (resultados_ok, errores_proceso) \<Rightarrow>
        (case leido of
           Inl e_pdf \<Rightarrow>
             (resultados_ok,
              errores_proceso @ [error_procesando item_name nombre_archivo e_pdf])
         | Inr pdf_data_in_zip \<Rightarrow>
             (case fst (extraer_texto_con_ocr (fitz_open env) (py_print env) pdf_data_in_zip) of
                Inl e_pdf \<Rightarrow>
                  (resultados_ok,
                   errores_proceso @ [error_procesando item_name nombre_archivo e_pdf])
              | Inr (texto, error) \<Rightarrow>
                  if hay_error error then
                    (resultados_ok, errores_proceso @
                       [''Error en '' @ comilla item_name @ '' (dentro de '' @ nombre_archivo
                          @ ''): '' @ the error])
                  else
                    (case registrar item_name texto of
                       Inl e_pdf \<Rightarrow>
                         (resultados_ok,
                          errores_proceso @ [error_procesando item_name nombre_archivo e_pdf])
                     | Inr datos \<Rightarrow> (resultados_ok @ [datos], errores_proceso))))))"

text \<open>The body of the loop over \<^verbatim>\<open>zip_ref.namelist()\<close>.\<close>

definition procesar_item ::
  "entorno \<Rightarrow> string \<Rightarrow> string \<times> (exn + bytes) \<Rightarrow> acumulado \<Rightarrow> acumulado" where
  "procesar_item env nombre_archivo item ac =
     (if es_pdf_del_zip (fst item) then procesar_pdf_del_zip env nombre_archivo item ac
      else ac)"

definition error_zip :: "string \<Rightarrow> exn \<Rightarrow> string" where
  "error_zip nombre_archivo e_zip =
     ''Error al procesar el archivo ZIP '' @ comilla nombre_archivo @ '': '' @ e_zip"

definition error_inesperado :: "string \<Rightarrow> exn \<Rightarrow> string" where
  "error_inesperado nombre_archivo e =
     ''Error inesperado procesando '' @ comilla nombre_archivo @ '': '' @ e"

definition zip_no_valido :: "string \<Rightarrow> string" where
  "zip_no_valido nombre_archivo =
     comilla nombre_archivo @ '' no es un archivo ZIP v'' @ [CHR 0xE1] @ ''lido.''"

text \<open>The branch for an archive (\<^verbatim>\<open>if nombre_archivo.endswith('.zip')\<close>).\<close>

definition procesar_zip :: "entorno \<Rightarrow> archivo \<Rightarrow> acumulado \<Rightarrow> acumulado" where
  "procesar_zip env file ac =
     (case ac of (resultados_ok, errores_proceso) \<Rightarrow>
      (let nombre_archivo = filename file in
       case leer file of
         Inl e_zip \<Rightarrow> (resultados_ok, errores_proceso @ [error_zip nombre_archivo e_zip])
       | Inr zip_stream \<Rightarrow>
           if \<not> is_zipfile env zip_stream then
             (resultados_ok, errores_proceso @ [zip_no_valido nombre_archivo])
           else
             (case zip_file env zip_stream of
                Inl e_zip \<Rightarrow>
                  (resultados_ok, errores_proceso @ [error_zip nombre_archivo e_zip])
              | Inr items \<Rightarrow>
                  fold (procesar_item env nombre_archivo) items
                    (resultados_ok, errores_proceso))))"

text \<open>The branch for a single document (\<^verbatim>\<open>elif nombre_archivo.endswith('.pdf')\<close>).\<close>

definition procesar_pdf :: "entorno \<Rightarrow> archivo \<Rightarrow> acumulado \<Rightarrow> acumulado" where
  "procesar_pdf env file ac =
     (case ac of (resultados_ok, errores_proceso) \<Rightarrow>
      (let nombre_archivo = filename file in
       case leer file of
         Inl e \<Rightarrow> (resultados_ok, errores_proceso @ [error_inesperado nombre_archivo e])
       | Inr pdf_stream \<Rightarrow>
           (case fst (extraer_texto_con_ocr (fitz_open env) (py_print env) pdf_stream) of
              Inl e \<Rightarrow> (resultados_ok, errores_proceso @ [error_inesperado nombre_archivo e])
            | Inr (texto, error) \<Rightarrow>
                if hay_error error then
                  (resultados_ok, errores_proceso @
                     [comilla nombre_archivo @ '': '' @ the error])
                else
                  (case registrar nombre_archivo texto of
                     Inl e \<Rightarrow>
                       (resultados_ok, errores_proceso @ [error_inesperado nombre_archivo e])
                   | Inr datos \<Rightarrow> (resultados_ok @ [datos], errores_proceso)))))"

text \<open>The body of the loop over the uploaded files.\<close>

definition procesar_archivo :: "entorno \<Rightarrow> archivo \<Rightarrow> acumulado \<Rightarrow> acumulado" where
  "procesar_archivo env file ac =
     (if endswith (filename file) ''.zip'' then procesar_zip env file ac
      else if endswith (filename file) ''.pdf'' then procesar_pdf env file ac
      else ac)"

text \<open>The two lists at the end of the loop.\<close>

definition procesar_lote :: "entorno \<Rightarrow> archivo list \<Rightarrow> acumulado" where
  "procesar_lote env files = fold (procesar_archivo env) files ([], [])"

text \<open>
  The request has the list \<^verbatim>\<open>upload_files\<close> or lacks the key. The response is the JSON
  object with its HTTP status; \<open>tabla\<close> stands for \<^verbatim>\<open>table_html\<close>: the rows that pandas
  renders, with the column \<^verbatim>\<open>Archivo\<close> moved to the front. (The spreadsheet kept in the
  session is not modelled.)
\<close>

record respuesta =
  success :: bool
  errors :: "string list"
  tabla :: "registro list option"
  status :: nat

definition columnas :: "registro \<Rightarrow> registro" where
  "columnas datos =
     filter (\<lambda>(col, v). col = ''Archivo'') datos @ filter (\<lambda>(col, v). col \<noteq> ''Archivo'') datos"

definition sin_resultados :: string where
  "sin_resultados =
     ''No se pudo extraer informaci'' @ [CHR 0xF3] @ ''n de ning'' @ [CHR 0xFA] @ ''n archivo.''"

definition process_files :: "entorno \<Rightarrow> archivo list option \<Rightarrow> respuesta" where
  "process_files env upload_files =
     (case upload_files of
        None \<Rightarrow>
          \<lparr>success = False, errors = [''No se enviaron archivos.''], tabla = None, status = 400\<rparr>
      | Some files \<Rightarrow>
          (case procesar_lote env files of (resultados_ok, errores_proceso) \<Rightarrow>
            if resultados_ok = [] then
              \<lparr>success = False, errors = sin_resultados # errores_proceso, tabla = None,
               status = 200\<rparr>
            else
              \<lparr>success = True, errors = errores_proceso,
               tabla = Some (map columnas resultados_ok), status = 200\<rparr>))"

section \<open>The normal form of a value, in the words of the specification\<close>

text \<open>
  The specification describes the cleaning of a value as: collapse every run of white space
  (newlines too) to a single space, then trim leading and trailing white space. These
  definitions follow those words, not the code; \<open>resultado_limpio\<close> above is the code.
\<close>

function colapsar :: "string \<Rightarrow> string" where
  "colapsar [] = []"
| "colapsar (c # cs) =
     (if py_isspace c then CHR '' '' # colapsar (dropWhile py_isspace cs)
      else c # colapsar cs)"
  by pat_completeness auto
termination
proof (relation "measure length")
  show "wf (measure length)" by simp
next
  fix c :: char and cs :: string
  show "(dropWhile py_isspace cs, c # cs) \<in> measure length"
    using length_dropWhile_le [of py_isspace cs] by simp
next
  fix c :: char and cs :: string
  show "(cs, c # cs) \<in> measure length" by simp
qed

definition recortar :: "string \<Rightarrow> string" where
  "recortar s = rev (dropWhile py_isspace (rev (dropWhile py_isspace s)))"

definition normalizar :: "string \<Rightarrow> string" where
  "normalizar s = recortar (colapsar s)"

section \<open>Example inputs\<close>

text \<open>A page with 120 characters of direct text, a scanned page with two characters of
  direct text whose OCR fails, a scanned page whose OCR reads a line, and documents made of
  them.\<close>

definition pagina_digital :: pagina where
  "pagina_digital = \<lparr>get_text = Inr (replicate 120 CHR ''a''), ocr = Inl ''no ocr''\<rparr>"

definition pagina_sin_ocr :: pagina where
  "pagina_sin_ocr = \<lparr>get_text = Inr '' 12 '', ocr = Inl ''tesseract is not installed''\<rparr>"

definition pagina_con_ocr :: pagina where
  "pagina_con_ocr = \<lparr>get_text = Inr [], ocr = Inr ''Item 7''\<rparr>"

definition doc_mixto :: documento where
  "doc_mixto = \<lparr>paginas = [pagina_digital, pagina_sin_ocr, pagina_con_ocr], close = None\<rparr>"

definition doc_vacio :: documento where
  "doc_vacio = \<lparr>paginas = [], close = None\<rparr>"

definition doc_escaneado :: documento where
  "doc_escaneado = \<lparr>paginas = [pagina_sin_ocr], close = None\<rparr>"

text \<open>The line \<^verbatim>\<open>CONTRATO N\xb0 045-2023-ABC\<close> (the degree sign is U+00B0), and a one-page
  document with that line as direct text, which the OCR reads as the same line.\<close>

definition linea_contrato :: string where
  "linea_contrato = ''CONTRATO N'' @ [CHR 0xB0] @ '' 045-2023-ABC''"


definition doc_contrato :: documento where
  "doc_contrato =
     \<lparr>paginas = [\<lparr>get_text = Inr linea_contrato, ocr = Inr linea_contrato\<rparr>], close = None\<rparr>"

text \<open>An environment: the bytes \<open>''M''\<close> are the mixed document, \<open>''V''\<close> the document
  without pages, \<open>''C''\<close> the one-line contract, \<open>''S''\<close> the scanned page whose OCR fails,
  \<open>''Z''\<close> an archive; anything else is unreadable. Its standard output writes every
  line.\<close>

definition abrir_ej :: "bytes \<Rightarrow> exn + documento" where
  "abrir_ej b =
     (if b = ''M'' then Inr doc_mixto else if b = ''V'' then Inr doc_vacio
      else if b = ''C'' then Inr doc_contrato
      else if b = ''S'' then Inr doc_escaneado
      else Inl ''cannot open broken document'')"

definition zip_ej :: "(string \<times> (exn + bytes)) list" where
  "zip_ej =
     [(''sample.pdf'', Inr ''V''), (''notes.txt'', Inr ''hola''),
      (''__MACOSX/._sample.pdf'', Inr ''x''), (''B.PDF'', Inr ''x''),
      (''roto.pdf'', Inl ''Bad CRC-32'')]"

definition env_ej :: entorno where
  "env_ej =
     \<lparr>fitz_open = abrir_ej,
      is_zipfile = (\<lambda>b. b = ''Z'' \<or> b = ''T''),
      zip_file = (\<lambda>b. if b = ''Z'' then Inr zip_ej else Inl ''Bad magic number''),
      py_print = (\<lambda>s. None)\<rparr>"

text \<open>A standard output encoded as ASCII: \<^verbatim>\<open>print\<close> raises \<^verbatim>\<open>UnicodeEncodeError\<close> on a line
  with a character beyond U+007F, with Python's message for the first run of such
  characters. The same environment with that output.\<close>

definition es_ascii :: "char \<Rightarrow> bool" where
  "es_ascii c = (cp c < 128)"

definition hex_digit :: "nat \<Rightarrow> char" where
  "hex_digit n = (if n < 10 then char_of (48 + n) else char_of (87 + n))"

definition hex2 :: "char \<Rightarrow> string" where
  "hex2 c = [hex_digit (cp c div 16), hex_digit (cp c mod 16)]"

definition ascii_codec_error :: "string \<Rightarrow> exn" where
  "ascii_codec_error s =
     (let i = length (takeWhile es_ascii s);
          n = length (takeWhile (\<lambda>c. \<not> es_ascii c) (drop i s))
      in if n = 1 then
           comilla ''ascii'' @ '' codec can'' @ [CHR 0x27] @ ''t encode character ''
             @ comilla ([CHR 0x5C] @ ''x'' @ hex2 (hd (drop i s)))
             @ '' in position '' @ str_nat i @ '': ordinal not in range(128)''
         else
           comilla ''ascii'' @ '' codec can'' @ [CHR 0x27] @ ''t encode characters in position ''
             @ str_nat i @ ''-'' @ str_nat (i + n - 1) @ '': ordinal not in range(128)'')"

definition print_ascii :: "string \<Rightarrow> exn option" where
  "print_ascii s =
     (if length (takeWhile es_ascii s) = length s then None else Some (ascii_codec_error s))"

definition env_ascii :: entorno where
  "env_ascii = env_ej\<lparr>py_print := print_ascii\<rparr>"

text \<open>A batch: an archive, a document without pages, a broken document, a text file and a
  file named \<^verbatim>\<open>.zip\<close> that is no archive; and the batch of the two that fail.\<close>

definition lote_ej :: "archivo list" where
  "lote_ej =
     [\<lparr>filename = ''lote.zip'', leer = Inr ''Z''\<rparr>,
      \<lparr>filename = ''v.pdf'', leer = Inr ''V''\<rparr>,
      \<lparr>filename = ''roto.pdf'', leer = Inr ''?''\<rparr>,
      \<lparr>filename = ''nota.txt'', leer = Inr ''hola''\<rparr>,
      \<lparr>filename = ''malo.zip'', leer = Inr ''hola''\<rparr>]"

definition lote_fallido :: "archivo list" where
  "lote_fallido =
     [\<lparr>filename = ''roto.pdf'', leer = Inr ''?''\<rparr>,
      \<lparr>filename = ''malo.zip'', leer = Inr ''hola''\<rparr>]"

section \<open>\<^verbatim>\<open>analizar_contrato\<close> with the state of the module \<^verbatim>\<open>re\<close>\<close>

text \<open>
  \<^verbatim>\<open>patrones\<close> and \<^verbatim>\<open>datos_extraidos\<close> are local to \<^verbatim>\<open>analizar_contrato\<close> and built anew by
  every call. The only state that a call reads or writes and that outlives it is inside the
  library: \<^verbatim>\<open>re.search\<close> keeps the patterns it has compiled in a cache of the module. Here
  the library is a parameter \<open>buscar\<close>, which takes the state of the module and gives the
  groups of the match (or \<open>None\<close>) and the new state, and the function is the loop of the
  source, one search and one assignment \<^verbatim>\<open>datos_extraidos[clave] = ...\<close> per item of
  \<^verbatim>\<open>patrones\<close>.
\<close>

text \<open>\<^verbatim>\<open>d[k] = v\<close> on a dictionary kept as the list of its items: the value is replaced in
  place when the key is there, the item is added at the end otherwise.\<close>

fun dict_set :: "string \<Rightarrow> string \<Rightarrow> registro \<Rightarrow> registro" where
  "dict_set k v [] = [(k, v)]"
| "dict_set k v ((k', v') # d) = (if k' = k then (k, v) # d else (k', v') # dict_set k v d)"

definition paso_campo ::
  "('st \<Rightarrow> regex \<Rightarrow> nat \<Rightarrow> string \<Rightarrow> caps option \<times> 'st) \<Rightarrow> string \<Rightarrow>
     string \<times> regex \<times> nat \<Rightarrow> registro \<times> 'st \<Rightarrow> registro \<times> 'st" where
  "paso_campo buscar texto_contrato item ac =
     (case item of (clave, patron, ng) \<Rightarrow>
      (case ac of (datos_extraidos, st) \<Rightarrow>
        (case buscar st patron ng texto_contrato of
           (Some gs, st') \<Rightarrow>
             (dict_set clave (resultado_limpio (join '' '' (grupos_validos gs))) datos_extraidos,
              st')
         | (None, st') \<Rightarrow> (dict_set clave ''No encontrado'' datos_extraidos, st'))))"

definition analizar_contrato_re ::
  "('st \<Rightarrow> regex \<Rightarrow> nat \<Rightarrow> string \<Rightarrow> caps option \<times> 'st) \<Rightarrow> string \<Rightarrow> 'st \<Rightarrow> registro \<times> 'st" where
  "analizar_contrato_re buscar texto_contrato st =
     fold (paso_campo buscar texto_contrato) patrones ([], st)"

text \<open>A library with a cache, as an example: the state is the list of the patterns compiled
  so far, a pattern is added at its first use, and the match is that of \<open>re_search\<close>.\<close>

definition buscar_cache ::
  "regex list \<Rightarrow> regex \<Rightarrow> nat \<Rightarrow> string \<Rightarrow> caps option \<times> regex list" where
  "buscar_cache cache patron ng texto =
     (re_search patron ng texto, if patron \<in> set cache then cache else patron # cache)"

section \<open>Properties of the page loop\<close>

lemma procesar_pagina_largo:
  "get_text pag = Inr crudo \<Longrightarrow> 100 \<le> length (strip crudo) \<Longrightarrow>
   procesar_pagina imprimir n pag acc = (Inr (acc @ strip crudo @ [CHR 0x0A]), [])"
  by (simp add: procesar_pagina_def)

lemma procesar_pagina_corto_ok:
  "get_text pag = Inr crudo \<Longrightarrow> length (strip crudo) < 100 \<Longrightarrow> ocr pag = Inr t \<Longrightarrow>
   procesar_pagina imprimir n pag acc = (Inr (acc @ t @ [CHR 0x0A]), [OcrCall n])"
  by (simp add: procesar_pagina_def)

lemma procesar_pagina_corto_falla:
  "get_text pag = Inr crudo \<Longrightarrow> length (strip crudo) < 100 \<Longrightarrow> ocr pag = Inl e \<Longrightarrow>
   imprimir (advertencia n e) = None \<Longrightarrow>
   procesar_pagina imprimir n pag acc =
     (Inr (acc @ strip crudo @ [CHR 0x0A]), [OcrCall n, Print (advertencia n e)])"
  by (simp add: procesar_pagina_def)

lemma procesar_pagina_print_falla:
  "get_text pag = Inr crudo \<Longrightarrow> length (strip crudo) < 100 \<Longrightarrow> ocr pag = Inl e \<Longrightarrow>
   imprimir (advertencia n e) = Some e' \<Longrightarrow>
   procesar_pagina imprimir n pag acc = (Inl e', [OcrCall n])"
  by (simp add: procesar_pagina_def)

lemma procesar_pagina_Inl:
  "\<forall>s. imprimir s = None \<Longrightarrow>
   fst (procesar_pagina imprimir n pag acc) = Inl e \<longleftrightarrow> get_text pag = Inl e"
  by (auto simp: procesar_pagina_def Let_def split: sum.splits)

lemma procesar_pagina_prefix:
  "fst (procesar_pagina imprimir n pag acc) = Inr t \<Longrightarrow> \<exists>post. t = acc @ post"
  by (auto simp: procesar_pagina_def Let_def split: sum.splits if_splits option.splits)

lemma procesar_pagina_ocr_event:
  "OcrCall i \<in> set (snd (procesar_pagina imprimir n pag acc)) \<Longrightarrow>
   i = n \<and> (\<exists>crudo. get_text pag = Inr crudo \<and> length (strip crudo) < 100)"
  by (auto simp: procesar_pagina_def Let_def split: sum.splits if_splits option.splits)

lemma bucle_prefix:
  "fst (bucle_paginas imprimir n ps acc) = Inr t \<Longrightarrow> \<exists>post. t = acc @ post"
proof (induction ps arbitrary: n acc)
  case Nil
  then show ?case by simp
next
  case (Cons p ps)
  obtain r evs where pp: "procesar_pagina imprimir n p acc = (r, evs)"
    by (cases "procesar_pagina imprimir n p acc")
  show ?case
  proof (cases r)
    case (Inl e)
    with Cons.prems pp show ?thesis by simp
  next
    case (Inr t1)
    obtain r2 evs2 where b: "bucle_paginas imprimir (Suc n) ps t1 = (r2, evs2)"
      by (cases "bucle_paginas imprimir (Suc n) ps t1")
    from Cons.prems pp Inr b have "r2 = Inr t" by simp
    with b Cons.IH [of "Suc n" t1] obtain post2 where "t = t1 @ post2" by auto
    moreover from pp Inr procesar_pagina_prefix [of imprimir n p acc t1]
    obtain post1 where "t1 = acc @ post1" by auto
    ultimately show ?thesis by simp
  qed
qed

lemma bucle_ocr_event:
  "OcrCall i \<in> set (snd (bucle_paginas imprimir n ps acc)) \<Longrightarrow>
   n \<le> i \<and> i < n + length ps \<and>
   (\<exists>crudo. get_text (ps ! (i - n)) = Inr crudo \<and> length (strip crudo) < 100)"
proof (induction ps arbitrary: n acc)
  case Nil
  then show ?case by simp
next
  case (Cons p ps)
  obtain r evs where pp: "procesar_pagina imprimir n p acc = (r, evs)"
    by (cases "procesar_pagina imprimir n p acc")
  show ?case
  proof (cases "OcrCall i \<in> set evs")
    case True
    with pp procesar_pagina_ocr_event [of i imprimir n p acc] show ?thesis by simp
  next
    case False
    show ?thesis
    proof (cases r)
      case (Inl e)
      with Cons.prems pp False show ?thesis by simp
    next
      case (Inr t1)
      obtain r2 evs2 where b: "bucle_paginas imprimir (Suc n) ps t1 = (r2, evs2)"
        by (cases "bucle_paginas imprimir (Suc n) ps t1")
      from Cons.prems pp Inr b False have "OcrCall i \<in> set evs2" by simp
      with b Cons.IH [of "Suc n" t1]
      have h: "Suc n \<le> i" "i < Suc n + length ps"
        "\<exists>crudo. get_text (ps ! (i - Suc n)) = Inr crudo \<and> length (strip crudo) < 100"
        by auto
      from h(1) have "(p # ps) ! (i - n) = ps ! (i - Suc n)"
        by (metis Suc_diff_le diff_Suc_Suc nth_Cons_Suc)
      with h show ?thesis by simp
    qed
  qed
qed

lemma bucle_contains_gen:
  "fst (bucle_paginas imprimir n ps acc) = Inr t \<Longrightarrow> k < length ps \<Longrightarrow>
   \<forall>m a. fst (procesar_pagina imprimir m (ps ! k) a) = Inr (a @ x) \<Longrightarrow>
   \<exists>pre post. t = pre @ x @ post"
proof (induction ps arbitrary: n acc k)
  case Nil
  then show ?case by simp
next
  case (Cons p ps)
  obtain r evs where pp: "procesar_pagina imprimir n p acc = (r, evs)"
    by (cases "procesar_pagina imprimir n p acc")
  show ?case
  proof (cases r)
    case (Inl e)
    with Cons.prems pp show ?thesis by simp
  next
    case (Inr t1)
    obtain r2 evs2 where b: "bucle_paginas imprimir (Suc n) ps t1 = (r2, evs2)"
      by (cases "bucle_paginas imprimir (Suc n) ps t1")
    from Cons.prems(1) pp Inr b have r2: "fst (bucle_paginas imprimir (Suc n) ps t1) = Inr t"
      by simp
    show ?thesis
    proof (cases k)
      case 0
      with Cons.prems(3) have "fst (procesar_pagina imprimir n p acc) = Inr (acc @ x)" by simp
      with pp Inr have "t1 = acc @ x" by simp
      moreover from bucle_prefix [OF r2] obtain post where "t = t1 @ post" by auto
      ultimately have "t = acc @ x @ post" by simp
      then show ?thesis by blast
    next
      case (Suc j)
      with Cons.prems have "j < length ps"
        "\<forall>m a. fst (procesar_pagina imprimir m (ps ! j) a) = Inr (a @ x)"
        by simp_all
      from Cons.IH [OF r2 this] show ?thesis .
    qed
  qed
qed

lemma bucle_contains:
  assumes "fst (bucle_paginas imprimir n ps acc) = Inr t" and "k < length ps"
    and "get_text (ps ! k) = Inr crudo" and "100 \<le> length (strip crudo)"
  shows "\<exists>pre post. t = pre @ strip crudo @ [CHR 0x0A] @ post"
proof -
  have "\<forall>m a. fst (procesar_pagina imprimir m (ps ! k) a) = Inr (a @ strip crudo @ [CHR 0x0A])"
    using assms(3,4) by (simp add: procesar_pagina_largo)
  from bucle_contains_gen [OF assms(1,2) this] show ?thesis by simp
qed

lemma bucle_reaches:
  "\<forall>s. imprimir s = None \<Longrightarrow>
   k < length ps \<Longrightarrow> \<forall>j<k. \<exists>t. get_text (ps ! j) = Inr t \<Longrightarrow>
   get_text (ps ! k) = Inr crudo \<Longrightarrow> length (strip crudo) < 100 \<Longrightarrow>
   OcrCall (n + k) \<in> set (snd (bucle_paginas imprimir n ps acc)) \<and>
   (\<forall>e. ocr (ps ! k) = Inl e \<longrightarrow>
      Print (advertencia (n + k) e) \<in> set (snd (bucle_paginas imprimir n ps acc)))"
proof (induction ps arbitrary: n acc k)
  case Nil
  then show ?case by simp
next
  case (Cons p ps)
  obtain r evs where pp: "procesar_pagina imprimir n p acc = (r, evs)"
    by (cases "procesar_pagina imprimir n p acc")
  show ?case
  proof (cases k)
    case 0
    with Cons.prems pp show ?thesis
      by (cases "ocr p") (auto simp: procesar_pagina_def Let_def split: sum.splits prod.splits)
  next
    case (Suc j)
    with Cons.prems have j: "j < length ps" "\<forall>i<j. \<exists>t. get_text (ps ! i) = Inr t"
      "get_text (ps ! j) = Inr crudo" by auto
    from Cons.prems(3) Suc obtain t0 where "get_text p = Inr t0" by fastforce
    with pp procesar_pagina_Inl [OF Cons.prems(1), of n p acc] obtain t1 where r: "r = Inr t1"
      by (cases r) auto
    obtain r2 evs2 where b: "bucle_paginas imprimir (Suc n) ps t1 = (r2, evs2)"
      by (cases "bucle_paginas imprimir (Suc n) ps t1")
    from Cons.IH [OF Cons.prems(1) j Cons.prems(5), of "Suc n" t1] b Suc pp r
    show ?thesis by simp
  qed
qed

lemma bucle_sin_fallo:
  "\<forall>s. imprimir s = None \<Longrightarrow> \<forall>p\<in>set ps. \<exists>t. get_text p = Inr t \<Longrightarrow>
   \<exists>t. fst (bucle_paginas imprimir n ps acc) = Inr t"
proof (induction ps arbitrary: n acc)
  case Nil
  then show ?case by simp
next
  case (Cons p ps)
  obtain r evs where pp: "procesar_pagina imprimir n p acc = (r, evs)"
    by (cases "procesar_pagina imprimir n p acc")
  from Cons.prems obtain t0 where "get_text p = Inr t0" by auto
  with pp procesar_pagina_Inl [OF Cons.prems(1), of n p acc] obtain t1 where r: "r = Inr t1"
    by (cases r) auto
  obtain r2 evs2 where b: "bucle_paginas imprimir (Suc n) ps t1 = (r2, evs2)"
    by (cases "bucle_paginas imprimir (Suc n) ps t1")
  from Cons.IH [OF Cons.prems(1), of "Suc n" t1] Cons.prems(2) b obtain t where "r2 = Inr t"
    by auto
  with pp r b show ?case by simp
qed

section \<open>Text acquisition\<close>

lemma extraer_eventos_ocr:
  "abrir b = Inr doc \<Longrightarrow>
   OcrCall i \<in> set (snd (extraer_texto_con_ocr abrir imprimir b)) \<longleftrightarrow>
   OcrCall i \<in> set (snd (bucle_paginas imprimir 0 (paginas doc) []))"
  by (auto simp: extraer_texto_con_ocr_def fallo_def split: sum.splits prod.splits option.splits)

lemma extraer_eventos_sub:
  "abrir b = Inr doc \<Longrightarrow>
   set (snd (bucle_paginas imprimir 0 (paginas doc) []))
     \<subseteq> set (snd (extraer_texto_con_ocr abrir imprimir b))"
  by (auto simp: extraer_texto_con_ocr_def fallo_def split: sum.splits prod.splits option.splits)

lemma extraer_exito:
  "abrir b = Inr doc \<Longrightarrow> fst (extraer_texto_con_ocr abrir imprimir b) = Inr (Some t, None) \<Longrightarrow>
   fst (bucle_paginas imprimir 0 (paginas doc) []) = Inr t"
  by (auto simp: extraer_texto_con_ocr_def fallo_def split: sum.splits prod.splits option.splits)

lemma extraer_forma:
  "(\<exists>t. fst (extraer_texto_con_ocr abrir imprimir b) = Inr (Some t, None)) \<or>
   (\<exists>e. fst (extraer_texto_con_ocr abrir imprimir b) = Inr (None, Some (error_critico e))) \<or>
   (\<exists>e e'. imprimir (error_critico e) = Some e' \<and>
            fst (extraer_texto_con_ocr abrir imprimir b) = Inl e')"
  by (auto simp: extraer_texto_con_ocr_def fallo_def split: sum.splits prod.splits option.splits)

lemma error_critico_no_vacio: "error_critico e \<noteq> []"
  by (simp add: error_critico_def)

lemma extraer_sin_fallo:
  "abrir b = Inr doc \<Longrightarrow> \<forall>s. imprimir s = None \<Longrightarrow>
   \<forall>p\<in>set (paginas doc). \<exists>t. get_text p = Inr t \<Longrightarrow> close doc = None \<Longrightarrow>
   \<exists>t. fst (extraer_texto_con_ocr abrir imprimir b) = Inr (Some t, None)"
  using bucle_sin_fallo [of imprimir "paginas doc" 0 "[]"]
  by (auto simp: extraer_texto_con_ocr_def fallo_def split: sum.splits prod.splits option.splits)

lemma procesar_pdf_exito:
  "leer file = Inr b \<Longrightarrow>
   fst (extraer_texto_con_ocr (fitz_open env) (py_print env) b) = Inr (Some t, None) \<Longrightarrow>
   procesar_pdf env file (oks, errs) =
     (oks @ [analizar_contrato t @ [(''Archivo'', filename file)]], errs)"
  by (simp add: procesar_pdf_def hay_error_def registrar_def)

lemma procesar_pdf_del_zip_exito:
  "fst (extraer_texto_con_ocr (fitz_open env) (py_print env) b) = Inr (Some t, None) \<Longrightarrow>
   procesar_pdf_del_zip env z (nombre, Inr b) (oks, errs) =
     (oks @ [analizar_contrato t @ [(''Archivo'', nombre)]], errs)"
  by (simp add: procesar_pdf_del_zip_def hay_error_def registrar_def)

lemma strip_digital: "strip (replicate 120 CHR ''a'') = replicate 120 CHR ''a''"
  by code_simp

text \<open>
  Claim C1. A page of a document that opens, whose direct text after \<^verbatim>\<open>strip()\<close> has at
  least 100 characters: whatever the standard output does, the run of
  \<open>extraer_texto_con_ocr\<close> holds no OCR call for that page; the loop body appends exactly the
  stripped direct text and a newline to whatever was accumulated and does nothing else; and
  when the function returns a text, that text contains the stripped direct text followed by
  the newline.
\<close>

theorem C1_direct_text_passthrough:
  assumes "abrir stream_pdf = Inr doc"
    and "i < length (paginas doc)"
    and "get_text (paginas doc ! i) = Inr crudo"
    and "100 \<le> length (strip crudo)"
  shows "OcrCall i \<notin> set (snd (extraer_texto_con_ocr abrir imprimir stream_pdf)) \<and>
         (\<forall>acc. procesar_pagina imprimir i (paginas doc ! i) acc =
                  (Inr (acc @ strip crudo @ [CHR 0x0A]), [])) \<and>
         (\<forall>t. fst (extraer_texto_con_ocr abrir imprimir stream_pdf) = Inr (Some t, None) \<longrightarrow>
              (\<exists>pre post. t = pre @ strip crudo @ [CHR 0x0A] @ post))"
proof (intro conjI allI impI)
  show "OcrCall i \<notin> set (snd (extraer_texto_con_ocr abrir imprimir stream_pdf))"
  proof
    assume "OcrCall i \<in> set (snd (extraer_texto_con_ocr abrir imprimir stream_pdf))"
    with assms(1) have "OcrCall i \<in> set (snd (bucle_paginas imprimir 0 (paginas doc) []))"
      by (simp add: extraer_eventos_ocr)
    from bucle_ocr_event [OF this] assms(3,4) show False by auto
  qed
next
  fix acc
  show "procesar_pagina imprimir i (paginas doc ! i) acc =
          (Inr (acc @ strip crudo @ [CHR 0x0A]), [])"
    using assms(3,4) by (rule procesar_pagina_largo)
next
  fix t
  assume "fst (extraer_texto_con_ocr abrir imprimir stream_pdf) = Inr (Some t, None)"
  with assms(1) have "fst (bucle_paginas imprimir 0 (paginas doc) []) = Inr t"
    by (rule extraer_exito)
  from bucle_contains [OF this assms(2,3,4)]
  show "\<exists>pre post. t = pre @ strip crudo @ [CHR 0x0A] @ post" .
qed

theorem C1_direct_text_passthrough_witness:
  "OcrCall 0 \<notin> set (snd (extraer_texto_con_ocr abrir_ej print_ascii ''M'')) \<and>
   OcrCall 0 \<notin> set (snd (extraer_texto_con_ocr abrir_ej (\<lambda>s. None) ''M'')) \<and>
   procesar_pagina print_ascii 0 pagina_digital ''x'' =
     (Inr (''x'' @ replicate 120 CHR ''a'' @ [CHR 0x0A]), []) \<and>
   (\<exists>t pre post. fst (extraer_texto_con_ocr abrir_ej (\<lambda>s. None) ''M'') = Inr (Some t, None) \<and>
      t = pre @ replicate 120 CHR ''a'' @ [CHR 0x0A] @ post)"
proof -
  have h1: "abrir_ej ''M'' = Inr doc_mixto" by (simp add: abrir_ej_def)
  have h2: "0 < length (paginas doc_mixto)" by (simp add: doc_mixto_def)
  have h3: "get_text (paginas doc_mixto ! 0) = Inr (replicate 120 CHR ''a'')"
    by (simp add: doc_mixto_def pagina_digital_def)
  have h4: "100 \<le> length (strip (replicate 120 CHR ''a''))" by (simp add: strip_digital)
  have p0: "paginas doc_mixto ! 0 = pagina_digital" by (simp add: doc_mixto_def)
  have ok: "\<exists>t. fst (extraer_texto_con_ocr abrir_ej (\<lambda>s. None) ''M'') = Inr (Some t, None)"
    by (rule extraer_sin_fallo [of abrir_ej "''M''" doc_mixto, OF h1])
       (simp_all add: doc_mixto_def pagina_digital_def pagina_sin_ocr_def pagina_con_ocr_def)
  then obtain t where t: "fst (extraer_texto_con_ocr abrir_ej (\<lambda>s. None) ''M'') = Inr (Some t, None)" ..
  note A = C1_direct_text_passthrough [of abrir_ej "''M''" doc_mixto 0 _ print_ascii,
      OF h1 h2 h3 h4, unfolded p0 strip_digital]
  note B = C1_direct_text_passthrough [of abrir_ej "''M''" doc_mixto 0 _ "\<lambda>s. None",
      OF h1 h2 h3 h4, unfolded p0 strip_digital]
  from B [THEN conjunct2, THEN conjunct2, rule_format, OF t] t
  have c: "\<exists>t pre post. fst (extraer_texto_con_ocr abrir_ej (\<lambda>s. None) ''M'') = Inr (Some t, None) \<and>
      t = pre @ replicate 120 CHR ''a'' @ [CHR 0x0A] @ post"
    by blast
  from A [THEN conjunct1] B [THEN conjunct1]
    A [THEN conjunct2, THEN conjunct1, rule_format, of "''x''"] c
  show ?thesis by (intro conjI)
qed

subsection \<open>When the standard output writes every line\<close>

lemma strip_12: "strip '' 12 '' = ''12''"
  by code_simp

lemma analizar_vacio:
  "analizar_contrato [] = map (\<lambda>(clave, patron, ng). (clave, ''No encontrado'')) patrones"
  by code_simp

text \<open>
  With a standard output that never raises, the handler of an OCR failure does what its
  comments say. For a page that the loop reaches, with fewer than 100 characters of direct
  text: the OCR is called; if it raises, the stripped direct text and a newline are
  appended, the warning is printed and a returned text contains that direct text; and when
  every page gives its direct text and \<^verbatim>\<open>doc.close()\<close> returns, the function returns a text
  and no error.
\<close>

lemma ocr_fallback_si_print_escribe:
  assumes "\<forall>s. imprimir s = None"
    and "abrir stream_pdf = Inr doc"
    and "i < length (paginas doc)"
    and "\<forall>j<i. \<exists>t. get_text (paginas doc ! j) = Inr t"
    and "get_text (paginas doc ! i) = Inr crudo"
    and "length (strip crudo) < 100"
  shows "OcrCall i \<in> set (snd (extraer_texto_con_ocr abrir imprimir stream_pdf))"
    and "ocr (paginas doc ! i) = Inl e \<Longrightarrow>
           procesar_pagina imprimir i (paginas doc ! i) acc =
             (Inr (acc @ strip crudo @ [CHR 0x0A]), [OcrCall i, Print (advertencia i e)])"
    and "ocr (paginas doc ! i) = Inl e \<Longrightarrow>
           Print (advertencia i e) \<in> set (snd (extraer_texto_con_ocr abrir imprimir stream_pdf))"
    and "ocr (paginas doc ! i) = Inl e \<Longrightarrow>
           fst (extraer_texto_con_ocr abrir imprimir stream_pdf) = Inr (Some t, None) \<Longrightarrow>
           \<exists>pre post. t = pre @ strip crudo @ [CHR 0x0A] @ post"
    and "\<forall>p\<in>set (paginas doc). \<exists>t. get_text p = Inr t \<Longrightarrow> close doc = None \<Longrightarrow>
           \<exists>t. fst (extraer_texto_con_ocr abrir imprimir stream_pdf) = Inr (Some t, None)"
proof -
  let ?run = "extraer_texto_con_ocr abrir imprimir stream_pdf"
  from bucle_reaches [OF assms(1,3,4,5,6), of 0 "[]"]
  have ev: "OcrCall i \<in> set (snd (bucle_paginas imprimir 0 (paginas doc) []))"
    and pr: "\<And>e. ocr (paginas doc ! i) = Inl e \<Longrightarrow>
               Print (advertencia i e) \<in> set (snd (bucle_paginas imprimir 0 (paginas doc) []))"
    by simp_all
  have sub: "set (snd (bucle_paginas imprimir 0 (paginas doc) [])) \<subseteq> set (snd ?run)"
    using assms(2) by (rule extraer_eventos_sub)
  show "OcrCall i \<in> set (snd ?run)" using ev sub by blast
  show "procesar_pagina imprimir i (paginas doc ! i) acc =
          (Inr (acc @ strip crudo @ [CHR 0x0A]), [OcrCall i, Print (advertencia i e)])"
    if "ocr (paginas doc ! i) = Inl e"
    using assms(5,6) that assms(1) by (simp add: procesar_pagina_corto_falla)
  show "Print (advertencia i e) \<in> set (snd ?run)" if "ocr (paginas doc ! i) = Inl e"
    using pr [OF that] sub by blast
  show "\<exists>pre post. t = pre @ strip crudo @ [CHR 0x0A] @ post"
    if e: "ocr (paginas doc ! i) = Inl e" and t: "fst ?run = Inr (Some t, None)"
  proof -
    from assms(2) t have bt: "fst (bucle_paginas imprimir 0 (paginas doc) []) = Inr t"
      by (rule extraer_exito)
    have "\<forall>m a. fst (procesar_pagina imprimir m (paginas doc ! i) a)
                   = Inr (a @ strip crudo @ [CHR 0x0A])"
      using assms(5,6) e assms(1) by (simp add: procesar_pagina_corto_falla)
    from bucle_contains_gen [OF bt assms(3) this] show ?thesis by simp
  qed
  show "\<exists>t. fst ?run = Inr (Some t, None)"
    if "\<forall>p\<in>set (paginas doc). \<exists>t. get_text p = Inr t" and "close doc = None"
    using extraer_sin_fallo [where abrir = abrir and b = stream_pdf and imprimir = imprimir,
        OF assms(2,1) that] .
qed

text \<open>
  With a standard output that writes the line of the outer handler, the returned tuple is
  exactly one of (a text, \<^verbatim>\<open>None\<close>) and (\<^verbatim>\<open>None\<close>, a non-empty error string).
\<close>

lemma tupla_si_print_escribe:
  assumes "\<forall>e. imprimir (error_critico e) = None"
  shows "(\<exists>t. fst (extraer_texto_con_ocr abrir imprimir b) = Inr (Some t, None)) \<noteq>
         (\<exists>e. e \<noteq> [] \<and> fst (extraer_texto_con_ocr abrir imprimir b) = Inr (None, Some e))"
  using extraer_forma [of abrir imprimir b] assms error_critico_no_vacio by auto

text \<open>
  A document that opens, has no page and closes gives the empty text with no error and no
  event, whatever the standard output does, and the upload is appended to
  \<^verbatim>\<open>resultados_ok\<close> with the sentinel in every field.
\<close>

lemma documento_sin_paginas:
  assumes "abrir b = Inr doc" and "paginas doc = []" and "close doc = None"
  shows "extraer_texto_con_ocr abrir imprimir b = (Inr (Some [], None), [])"
    and "fitz_open env = abrir \<Longrightarrow> leer file = Inr b \<Longrightarrow>
           procesar_pdf env file (oks, errs) =
             (oks @ [map (\<lambda>(clave, patron, ng). (clave, ''No encontrado'')) patrones
                       @ [(''Archivo'', filename file)]], errs)"
proof -
  show r: "extraer_texto_con_ocr abrir imprimir b = (Inr (Some [], None), [])" for imprimir
    using assms by (simp add: extraer_texto_con_ocr_def)
  show "procesar_pdf env file (oks, errs) =
          (oks @ [map (\<lambda>(clave, patron, ng). (clave, ''No encontrado'')) patrones
                    @ [(''Archivo'', filename file)]], errs)"
    if "fitz_open env = abrir" and "leer file = Inr b"
    using that r [of "py_print env"] by (simp add: procesar_pdf_exito analizar_vacio)
qed

subsection \<open>When \<^verbatim>\<open>print\<close> raises\<close>

lemma extraer_pagina_lanza:
  assumes "abrir b = Inr doc" and "paginas doc = pag # resto"
    and "procesar_pagina imprimir 0 pag [] = (Inl e1, evs)"
  shows "extraer_texto_con_ocr abrir imprimir b = fallo imprimir e1 evs"
  using assms by (simp add: extraer_texto_con_ocr_def)

text \<open>
  Claim C2: a defect of the code. The comments of the handler (\<^verbatim>\<open>app.py\<close>, lines 48 and 50)
  say that an OCR failure is recorded and the loop goes on with the direct text, and that is
  what the claim states. But the warning is printed before the direct text is appended. For
  a first page with fewer than 100 characters of direct text whose OCR raises, on a standard
  output where the \<^verbatim>\<open>print\<close> of the warning raises \<open>e1\<close>: the loop body appends nothing and
  leaves the loop with \<open>e1\<close>; the outer handler then makes a document-level error of it, or,
  when its own \<^verbatim>\<open>print\<close> raises \<open>e2\<close>, the function raises \<open>e2\<close>; either way the upload adds
  one line to \<^verbatim>\<open>errores_proceso\<close> and no record.
\<close>

theorem C2_warning_print_raises:
  assumes "abrir stream_pdf = Inr doc"
    and "paginas doc = pag # resto"
    and "get_text pag = Inr crudo"
    and "length (strip crudo) < 100"
    and "ocr pag = Inl e"
    and "imprimir (advertencia 0 e) = Some e1"
  shows "(\<forall>acc. procesar_pagina imprimir 0 pag acc = (Inl e1, [OcrCall 0])) \<and>
         fst (extraer_texto_con_ocr abrir imprimir stream_pdf) =
           (case imprimir (error_critico e1) of
              None \<Rightarrow> Inr (None, Some (error_critico e1))
            | Some e2 \<Rightarrow> Inl e2) \<and>
         (\<forall>env file oks errs.
            fitz_open env = abrir \<and> py_print env = imprimir \<and> leer file = Inr stream_pdf \<longrightarrow>
            procesar_pdf env file (oks, errs) =
              (oks, errs @
                 [case imprimir (error_critico e1) of
                    None \<Rightarrow> comilla (filename file) @ '': '' @ error_critico e1
                  | Some e2 \<Rightarrow> error_inesperado (filename file) e2]))"
proof (intro conjI allI impI)
  fix acc
  show "procesar_pagina imprimir 0 pag acc = (Inl e1, [OcrCall 0])"
    using assms(3,4,5,6) by (rule procesar_pagina_print_falla)
next
  have p: "procesar_pagina imprimir 0 pag [] = (Inl e1, [OcrCall 0])"
    using assms(3,4,5,6) by (rule procesar_pagina_print_falla)
  show f: "fst (extraer_texto_con_ocr abrir imprimir stream_pdf) =
           (case imprimir (error_critico e1) of
              None \<Rightarrow> Inr (None, Some (error_critico e1))
            | Some e2 \<Rightarrow> Inl e2)"
    by (simp add: extraer_pagina_lanza [where abrir = abrir and b = stream_pdf
          and imprimir = imprimir, OF assms(1,2) p] fallo_def split: option.splits)
  fix env :: entorno and f :: archivo and oks :: "registro list" and errs :: "string list"
  assume h: "fitz_open env = abrir \<and> py_print env = imprimir \<and> leer f = Inr stream_pdf"
  show "procesar_pdf env f (oks, errs) =
              (oks, errs @
                 [case imprimir (error_critico e1) of
                    None \<Rightarrow> comilla (filename f) @ '': '' @ error_critico e1
                  | Some e2 \<Rightarrow> error_inesperado (filename f) e2])"
    using h f error_critico_no_vacio [of e1]
    by (simp add: procesar_pdf_def hay_error_def split: option.splits)
qed

lemma aviso_ascii:
  "print_ascii (advertencia 0 ''tesseract is not installed'') =
     Some (comilla ''ascii'' @ '' codec can'' @ [CHR 0x27] @ ''t encode character ''
             @ comilla ([CHR 0x5C] @ ''xf3'') @ '' in position 21: ordinal not in range(128)'')"
  by code_simp

lemma critico_ascii: "print_ascii (error_critico e) = Some (ascii_codec_error (error_critico e))"
  by (simp add: print_ascii_def error_critico_def es_ascii_def cp_def)

lemma critico_ascii_msg:
  "ascii_codec_error (error_critico e) =
     comilla ''ascii'' @ '' codec can'' @ [CHR 0x27] @ ''t encode character ''
       @ comilla ([CHR 0x5C] @ ''xed'') @ '' in position 8: ordinal not in range(128)''"
proof -
  have t: "takeWhile es_ascii (error_critico e) = ''Error Cr''"
    by (simp add: error_critico_def es_ascii_def cp_def)
  have d: "drop 8 (error_critico e) = CHR 0xED # ''tico al procesar el PDF: '' @ e"
    by (simp add: error_critico_def)
  have n: "takeWhile (\<lambda>c. \<not> es_ascii c) (CHR 0xED # ''tico al procesar el PDF: '' @ e) = [CHR 0xED]"
    by (simp add: es_ascii_def cp_def)
  have s: "str_nat 8 = ''8''" by code_simp
  have x: "hex2 (CHR 0xED) = ''ed''" by code_simp
  have l: "length (takeWhile es_ascii (error_critico e)) = 8"
    by (simp only: t) simp
  show ?thesis
    unfolding ascii_codec_error_def Let_def l d n by (simp add: s x)
qed

theorem C2_warning_print_raises_witness:
  "procesar_pagina print_ascii 0 pagina_sin_ocr ''x'' =
     (Inl (comilla ''ascii'' @ '' codec can'' @ [CHR 0x27] @ ''t encode character ''
             @ comilla ([CHR 0x5C] @ ''xf3'') @ '' in position 21: ordinal not in range(128)''),
      [OcrCall 0]) \<and>
   fst (extraer_texto_con_ocr abrir_ej print_ascii ''S'') =
     Inl (comilla ''ascii'' @ '' codec can'' @ [CHR 0x27] @ ''t encode character ''
            @ comilla ([CHR 0x5C] @ ''xed'') @ '' in position 8: ordinal not in range(128)'') \<and>
   procesar_pdf env_ascii \<lparr>filename = ''s.pdf'', leer = Inr ''S''\<rparr> ([], []) =
     ([], [error_inesperado ''s.pdf''
             (comilla ''ascii'' @ '' codec can'' @ [CHR 0x27] @ ''t encode character ''
                @ comilla ([CHR 0x5C] @ ''xed'') @ '' in position 8: ordinal not in range(128)'')])"
proof -
  have h1: "abrir_ej ''S'' = Inr doc_escaneado" by (simp add: abrir_ej_def)
  have h2: "paginas doc_escaneado = pagina_sin_ocr # []" by (simp add: doc_escaneado_def)
  have h3: "get_text pagina_sin_ocr = Inr '' 12 ''" by (simp add: pagina_sin_ocr_def)
  have h4: "length (strip '' 12 '') < 100" by (simp add: strip_12)
  have h5: "ocr pagina_sin_ocr = Inl ''tesseract is not installed''"
    by (simp add: pagina_sin_ocr_def)
  have e: "fitz_open env_ascii = abrir_ej \<and> py_print env_ascii = print_ascii \<and>
           leer \<lparr>filename = ''s.pdf'', leer = Inr ''S''\<rparr> = Inr ''S''"
    by (simp add: env_ascii_def env_ej_def)
  note T = C2_warning_print_raises [where abrir = abrir_ej and stream_pdf = "''S''"
      and imprimir = print_ascii, OF h1 h2 h3 h4 h5 aviso_ascii]
  from T [THEN conjunct1, rule_format, of "''x''"]
  have a: "procesar_pagina print_ascii 0 pagina_sin_ocr ''x'' =
     (Inl (comilla ''ascii'' @ '' codec can'' @ [CHR 0x27] @ ''t encode character ''
             @ comilla ([CHR 0x5C] @ ''xf3'') @ '' in position 21: ordinal not in range(128)''),
      [OcrCall 0])" .
  from T [THEN conjunct2, THEN conjunct1]
  have b: "fst (extraer_texto_con_ocr abrir_ej print_ascii ''S'') =
     Inl (comilla ''ascii'' @ '' codec can'' @ [CHR 0x27] @ ''t encode character ''
            @ comilla ([CHR 0x5C] @ ''xed'') @ '' in position 8: ordinal not in range(128)'')"
    by (simp only: critico_ascii option.case critico_ascii_msg)
  from T [THEN conjunct2, THEN conjunct2, rule_format, OF e, of "[]" "[]"]
  have c: "procesar_pdf env_ascii \<lparr>filename = ''s.pdf'', leer = Inr ''S''\<rparr> ([], []) =
     ([], [error_inesperado ''s.pdf''
             (comilla ''ascii'' @ '' codec can'' @ [CHR 0x27] @ ''t encode character ''
                @ comilla ([CHR 0x5C] @ ''xed'') @ '' in position 8: ordinal not in range(128)'')])"
    by (simp only: critico_ascii option.case critico_ascii_msg archivo.select_convs append_Nil)
  from a b c show ?thesis by (intro conjI)
qed

text \<open>
  Claim C10: a defect of the code. The docstring of \<^verbatim>\<open>extraer_texto_con_ocr\<close> promises one
  of the two tuples, as the claim does. But the outer handler prints the message before it
  returns. For a document that cannot be opened, on a standard output where the \<^verbatim>\<open>print\<close>
  of the message raises \<open>e'\<close>: the function returns neither tuple, it raises \<open>e'\<close> to its
  caller; the caller catches it and records the line of an unexpected error.
\<close>

theorem C10_error_print_raises:
  assumes "abrir b = Inl e"
    and "imprimir (error_critico e) = Some e'"
  shows "extraer_texto_con_ocr abrir imprimir b = (Inl e', []) \<and>
         (\<forall>t. fst (extraer_texto_con_ocr abrir imprimir b) \<noteq> Inr (Some t, None)) \<and>
         (\<forall>m. fst (extraer_texto_con_ocr abrir imprimir b) \<noteq> Inr (None, Some m)) \<and>
         (\<forall>env file oks errs.
            fitz_open env = abrir \<and> py_print env = imprimir \<and> leer file = Inr b \<longrightarrow>
            procesar_pdf env file (oks, errs) =
              (oks, errs @ [error_inesperado (filename file) e']))"
proof -
  have r: "extraer_texto_con_ocr abrir imprimir b = (Inl e', [])"
    using assms by (simp add: extraer_texto_con_ocr_def fallo_def)
  then show ?thesis by (auto simp: procesar_pdf_def)
qed

theorem C10_error_print_raises_witness:
  "extraer_texto_con_ocr abrir_ej print_ascii ''?'' =
     (Inl (comilla ''ascii'' @ '' codec can'' @ [CHR 0x27] @ ''t encode character ''
             @ comilla ([CHR 0x5C] @ ''xed'') @ '' in position 8: ordinal not in range(128)''), []) \<and>
   procesar_pdf env_ascii \<lparr>filename = ''roto.pdf'', leer = Inr ''?''\<rparr> ([], []) =
     ([], [error_inesperado ''roto.pdf''
             (comilla ''ascii'' @ '' codec can'' @ [CHR 0x27] @ ''t encode character ''
                @ comilla ([CHR 0x5C] @ ''xed'') @ '' in position 8: ordinal not in range(128)'')])"
proof -
  have h1: "abrir_ej ''?'' = Inl ''cannot open broken document''" by (simp add: abrir_ej_def)
  have h2: "print_ascii (error_critico ''cannot open broken document'') =
              Some (comilla ''ascii'' @ '' codec can'' @ [CHR 0x27] @ ''t encode character ''
                @ comilla ([CHR 0x5C] @ ''xed'') @ '' in position 8: ordinal not in range(128)'')"
    by (simp only: critico_ascii critico_ascii_msg)
  have e: "fitz_open env_ascii = abrir_ej \<and> py_print env_ascii = print_ascii \<and>
           leer \<lparr>filename = ''roto.pdf'', leer = Inr ''?''\<rparr> = Inr ''?''"
    by (simp add: env_ascii_def env_ej_def)
  note T = C10_error_print_raises [where abrir = abrir_ej and b = "''?''"
      and imprimir = print_ascii, OF h1 h2]
  from T [THEN conjunct1] T [THEN conjunct2, THEN conjunct2, THEN conjunct2, rule_format, OF e,
      of "[]" "[]"]
  show ?thesis by (simp only: archivo.select_convs append_Nil simp_thms)
qed

section \<open>Field extraction\<close>

subsection \<open>The cleaning of the code is the normal form of the specification\<close>

lemma isspace_blank: "py_isspace CHR '' ''"
  by (simp add: py_isspace_def cp_def)

lemma colapsar_word: "\<forall>x\<in>set w. \<not> py_isspace x \<Longrightarrow> colapsar (w @ r) = w @ colapsar r"
  by (induction w) simp_all

lemma colapsar_no_leading:
  "y = [] \<or> \<not> py_isspace (hd y) \<Longrightarrow> dropWhile py_isspace (colapsar y) = colapsar y"
  by (cases y) auto

lemma dropWhile_no_leading:
  "dropWhile py_isspace s = [] \<or> \<not> py_isspace (hd (dropWhile py_isspace s))"
  using hd_dropWhile [of py_isspace s] by blast

lemma lstrip_colapsar: "dropWhile py_isspace (colapsar s) = colapsar (dropWhile py_isspace s)"
proof (cases s)
  case Nil
  then show ?thesis by simp
next
  case (Cons c cs)
  show ?thesis
  proof (cases "py_isspace c")
    case True
    with Cons show ?thesis
      using colapsar_no_leading [OF dropWhile_no_leading [of cs]]
      by (simp add: isspace_blank)
  next
    case False
    with Cons show ?thesis by simp
  qed
qed

lemma rstrip_append:
  "rev (dropWhile py_isspace (rev (a @ b))) =
     (if dropWhile py_isspace (rev b) = [] then rev (dropWhile py_isspace (rev a))
      else a @ rev (dropWhile py_isspace (rev b)))"
  by (auto simp: dropWhile_append dropWhile_eq_Nil_conv)

lemma rstrip_word:
  "w \<noteq> [] \<Longrightarrow> \<not> py_isspace (last w) \<Longrightarrow> rev (dropWhile py_isspace (rev w)) = w"
  by (cases w rule: rev_cases) auto

lemma split_ws_shape: "split_ws s = [] \<or> (\<exists>c w ws. split_ws s = (c # w) # ws)"
proof (cases "dropWhile py_isspace s")
  case Nil
  have "split_ws s = []" by (subst split_ws.simps) (simp only: Nil list.case)
  then show ?thesis by blast
next
  case (Cons c cs)
  have "split_ws s = (c # takeWhile (\<lambda>x. \<not> py_isspace x) cs)
                       # split_ws (dropWhile (\<lambda>x. \<not> py_isspace x) cs)"
    by (subst split_ws.simps) (simp only: Cons list.case)
  then show ?thesis by blast
qed

lemma join_nonempty: "join sep ((c # w) # ws) \<noteq> []"
  by (cases ws) simp_all

lemma join_Nil_iff: "join '' '' (split_ws s) = [] \<longleftrightarrow> split_ws s = []"
  using split_ws_shape [of s] join_nonempty by fastforce

lemma join_Cons: "ws \<noteq> [] \<Longrightarrow> join sep (w # ws) = w @ sep @ join sep ws"
  by (cases ws) simp_all

lemma rstrip_colapsar:
  "rev (dropWhile py_isspace (rev (colapsar (dropWhile py_isspace s)))) = join '' '' (split_ws s)"
proof (induction s rule: split_ws.induct)
  case (1 s)
  show ?case
  proof (cases "dropWhile py_isspace s")
    case Nil
    have "split_ws s = []" by (subst split_ws.simps) (simp only: Nil list.case)
    then show ?thesis by (simp only: Nil colapsar.simps rev.simps dropWhile.simps join.simps)
  next
    case (Cons c cs)
    let ?w = "c # takeWhile (\<lambda>x. \<not> py_isspace x) cs"
    let ?rest = "dropWhile (\<lambda>x. \<not> py_isspace x) cs"
    let ?Y = "colapsar (dropWhile py_isspace ?rest)"
    have c: "\<not> py_isspace c" using hd_dropWhile [of py_isspace s] Cons by simp
    have w: "\<forall>x\<in>set ?w. \<not> py_isspace x" using c by (auto dest: set_takeWhileD)
    have lw: "\<not> py_isspace (last ?w)" using w last_in_set [of ?w] by blast
    have sp: "split_ws s = ?w # split_ws ?rest"
      by (subst split_ws.simps) (simp only: Cons list.case)
    have IH: "rev (dropWhile py_isspace (rev ?Y)) = join '' '' (split_ws ?rest)"
      using "1.IH" [OF Cons] .
    have dec: "c # cs = ?w @ ?rest" by simp
    have col: "colapsar (c # cs) = ?w @ colapsar ?rest"
      by (subst dec) (rule colapsar_word [OF w])
    show ?thesis
    proof (cases ?rest)
      case Nil
      have "split_ws [] = []" by (subst split_ws.simps) simp
      then have "split_ws ?rest = []" by (simp only: Nil)
      with sp have r: "join '' '' (split_ws s) = ?w" by simp
      have "colapsar (c # cs) = ?w" using col Nil by simp
      then show ?thesis unfolding Cons r using rstrip_word [OF _ lw] by simp
    next
      case (Cons x xs)
      have x: "py_isspace x" using hd_dropWhile [of "\<lambda>x. \<not> py_isspace x" cs] Cons by simp
      have cr: "colapsar ?rest = CHR '' '' # ?Y" unfolding Cons using x by simp
      have col2: "colapsar (c # cs) = (?w @ '' '') @ ?Y" using col cr by simp
      show ?thesis
      proof (cases "split_ws ?rest = []")
        case True
        have "rev (dropWhile py_isspace (rev ?Y)) = []"
          by (simp only: IH True join.simps)
        then have e: "dropWhile py_isspace (rev ?Y) = []"
          using rev_is_Nil_conv by blast
        have "rev (dropWhile py_isspace (rev ((?w @ '' '') @ ?Y)))
                     = rev (dropWhile py_isspace (rev (?w @ '' '')))"
          by (subst rstrip_append) (simp only: e if_True simp_thms)
        then have "rev (dropWhile py_isspace (rev (colapsar (c # cs))))
                     = rev (dropWhile py_isspace (rev (?w @ '' '')))"
          by (simp only: col2)
        also have "\<dots> = rev (dropWhile py_isspace (rev ?w))"
          by (subst rstrip_append) (simp add: isspace_blank)
        also have "\<dots> = ?w"
          by (rule rstrip_word [OF _ lw]) simp
        finally have l: "rev (dropWhile py_isspace (rev (colapsar (c # cs)))) = ?w" .
        have "join '' '' (split_ws s) = ?w"
          by (simp only: sp True join.simps)
        with l show ?thesis by (simp only: \<open>dropWhile py_isspace s = c # cs\<close>)
      next
        case False
        have j: "join '' '' (split_ws ?rest) \<noteq> []"
          using False join_Nil_iff [of ?rest] by blast
        have "rev (dropWhile py_isspace (rev ?Y)) \<noteq> []"
          unfolding IH by (rule j)
        then have ne: "dropWhile py_isspace (rev ?Y) \<noteq> []"
          using rev_is_Nil_conv by blast
        have "rev (dropWhile py_isspace (rev ((?w @ '' '') @ ?Y)))
                = (?w @ '' '') @ rev (dropWhile py_isspace (rev ?Y))"
          by (subst rstrip_append) (simp only: ne if_False simp_thms)
        then have "rev (dropWhile py_isspace (rev (colapsar (c # cs))))
                = (?w @ '' '') @ rev (dropWhile py_isspace (rev ?Y))"
          by (simp only: col2)
        also have "\<dots> = (?w @ '' '') @ join '' '' (split_ws ?rest)"
          by (simp only: IH)
        also have "\<dots> = ?w @ '' '' @ join '' '' (split_ws ?rest)"
          by (simp only: append_assoc)
        also have "\<dots> = join '' '' (?w # split_ws ?rest)"
          by (rule join_Cons [OF False, symmetric])
        finally have "rev (dropWhile py_isspace (rev (colapsar (c # cs))))
                        = join '' '' (split_ws s)"
          by (simp only: sp)
        then show ?thesis by (simp only: \<open>dropWhile py_isspace s = c # cs\<close>)
      qed
    qed
  qed
qed

lemma strip_idem: "strip (strip s) = strip s"
proof -
  let ?y = "dropWhile py_isspace s"
  let ?d = "dropWhile py_isspace (rev ?y)"
  have z: "strip s = rev ?d" by (simp add: strip_def)
  have "dropWhile py_isspace (rev ?d) = rev ?d"
  proof (cases ?y)
    case Nil
    show ?thesis by (simp only: Nil rev.simps dropWhile.simps)
  next
    case (Cons h t)
    have h: "\<not> py_isspace h" using hd_dropWhile [of py_isspace s] Cons by simp
    have "\<exists>u. ?d = u @ [h]" unfolding Cons using h by (simp add: dropWhile_append)
    then obtain u where "?d = u @ [h]" ..
    then show ?thesis using h by simp
  qed
  then show ?thesis unfolding z strip_def by simp
qed

lemma normalizar_join: "normalizar s = join '' '' (split_ws s)"
  by (simp add: normalizar_def recortar_def lstrip_colapsar rstrip_colapsar)

lemma normalizar_strip: "normalizar s = strip (colapsar s)"
  by (simp add: normalizar_def recortar_def strip_def)

lemma resultado_limpio_normalizar: "resultado_limpio s = normalizar s"
proof -
  have "resultado_limpio s = strip (normalizar s)"
    by (simp add: resultado_limpio_def normalizar_join)
  also have "\<dots> = normalizar s" by (simp add: normalizar_strip strip_idem)
  finally show ?thesis .
qed

subsection \<open>The dictionary returned by \<^verbatim>\<open>analizar_contrato\<close>\<close>

lemma claves_distintas: "distinct (map fst patrones)"
  by (simp add: patrones_def)

lemma claves_analizar: "map fst (analizar_contrato texto) = map fst patrones"
  by (simp add: analizar_contrato_def case_prod_beta comp_def)

lemma analizar_lookup:
  assumes "(clave, patron, ng) \<in> set patrones"
  shows "map_of (analizar_contrato texto) clave = Some (valor_campo patron ng texto)"
proof -
  have "distinct (map fst (analizar_contrato texto))"
    by (simp only: claves_analizar claves_distintas)
  moreover have "(clave, valor_campo patron ng texto) \<in> set (analizar_contrato texto)"
    using assms by (force simp: analizar_contrato_def)
  ultimately show ?thesis by (rule map_of_is_SomeI)
qed

lemma grupos_validos_alt:
  "grupos_validos gs = concat (map (\<lambda>g. case g of None \<Rightarrow> [] | Some x \<Rightarrow> [x]) gs)"
  by (induction gs) (auto simp: grupos_validos_def)

lemma sin_num_contrato: "re_search p_num_contrato 1 [] = None"
  by code_simp

text \<open>
  Claim C3, amended. For every text and every field of the table whose pattern has no
  match, the value under the field's key is exactly the sentinel of the program, the string
  \<^verbatim>\<open>No encontrado\<close>; it is not the empty string, and the key is present. (The claim names
  the sentinel \<^verbatim>\<open>not found\<close>; the counterexample after the witness shows that the program
  does not store that string.)
\<close>

theorem C3_no_match_sentinel:
  assumes "(clave, patron, ng) \<in> set patrones"
    and "re_search patron ng texto = None"
  shows "map_of (analizar_contrato texto) clave = Some ''No encontrado'' \<and>
         map_of (analizar_contrato texto) clave \<noteq> Some [] \<and>
         clave \<in> dom (map_of (analizar_contrato texto))"
  using analizar_lookup [OF assms(1), of texto] assms(2)
  by (auto simp: valor_campo_def)

theorem C3_no_match_sentinel_witness:
  "map_of (analizar_contrato []) ''num_contrato'' = Some ''No encontrado'' \<and>
   ''num_contrato'' \<in> dom (map_of (analizar_contrato []))"
proof -
  have m: "(''num_contrato'', p_num_contrato, 1) \<in> set patrones"
    by (simp add: patrones_def)
  from C3_no_match_sentinel [OF m sin_num_contrato] show ?thesis by simp
qed

theorem C3_not_found_counterexample:
  "(''num_contrato'', p_num_contrato, 1) \<in> set patrones \<and>
   re_search p_num_contrato 1 [] = None \<and>
   map_of (analizar_contrato []) ''num_contrato'' \<noteq> Some ''not found''"
proof -
  have m: "(''num_contrato'', p_num_contrato, 1) \<in> set patrones"
    by (simp add: patrones_def)
  have "map_of (analizar_contrato []) ''num_contrato'' = Some ''No encontrado''"
    using analizar_lookup [OF m, of "[]"] sin_num_contrato by (simp add: valor_campo_def)
  with m sin_num_contrato show ?thesis by simp
qed

text \<open>
  Claim C5. For every text and every field of the table whose pattern matches, with the
  groups \<open>gs\<close> of the match (\<open>None\<close> for a group that took no part): the value under the
  key is the join, by one space and in group order, of the captured strings of the groups
  that took part, normalised as the specification says (every run of white space collapsed
  to one space, then trimmed).
\<close>

theorem C5_groups_joined_normalized:
  assumes "(clave, patron, ng) \<in> set patrones"
    and "re_search patron ng texto = Some gs"
  shows "map_of (analizar_contrato texto) clave =
           Some (normalizar
                  (join '' '' (concat (map (\<lambda>g. case g of None \<Rightarrow> [] | Some x \<Rightarrow> [x]) gs))))"
  using analizar_lookup [OF assms(1), of texto] assms(2)
  by (simp add: valor_campo_def resultado_limpio_normalizar grupos_validos_alt)

lemma busca_proceso:
  "re_search p_proceso_seleccion 2 ''Concurso Publico N. 12-A''
     = Some [Some ''Concurso Publico'', Some ''12-A'']"
  by code_simp

lemma busca_proceso_solo:
  "re_search p_proceso_seleccion 2 ''Concurso Publico''
     = Some [Some ''Concurso Publico'', None]"
  by code_simp

lemma norm_proceso: "normalizar ''Concurso Publico 12-A'' = ''Concurso Publico 12-A''"
  by code_simp

theorem C5_groups_joined_normalized_witness:
  "map_of (analizar_contrato ''Concurso Publico N. 12-A'') ''proceso_seleccion'' =
     Some ''Concurso Publico 12-A'' \<and>
   map_of (analizar_contrato ''Concurso Publico'') ''proceso_seleccion'' =
     Some ''Concurso Publico''"
proof -
  have m: "(''proceso_seleccion'', p_proceso_seleccion, 2) \<in> set patrones"
    by (simp add: patrones_def)
  have n2: "normalizar ''Concurso Publico'' = ''Concurso Publico''" by code_simp
  from C5_groups_joined_normalized [OF m busca_proceso]
       C5_groups_joined_normalized [OF m busca_proceso_solo]
  show ?thesis by (simp add: norm_proceso n2)
qed

subsection \<open>The loop of \<^verbatim>\<open>analizar_contrato\<close> and the state of the library\<close>

lemma dict_set_nuevo: "k \<notin> fst ` set d \<Longrightarrow> dict_set k v d = d @ [(k, v)]"
  by (induction d) auto

lemma paso_campo_valor:
  assumes "\<forall>st patron ng texto. fst (buscar st patron ng texto) = re_search patron ng texto"
  shows "paso_campo buscar texto (clave, patron, ng) (d, st) =
           (dict_set clave (valor_campo patron ng texto) d, snd (buscar st patron ng texto))"
proof -
  obtain m st' where b: "buscar st patron ng texto = (m, st')"
    by (cases "buscar st patron ng texto")
  with assms have m: "re_search patron ng texto = m" by (metis fst_conv)
  show ?thesis
    by (cases m) (simp_all add: paso_campo_def valor_campo_def b m)
qed

lemma fold_paso_campo:
  assumes "\<forall>st patron ng texto. fst (buscar st patron ng texto) = re_search patron ng texto"
  shows "distinct (map fst ps) \<Longrightarrow> fst ` set ps \<inter> fst ` set d = {} \<Longrightarrow>
         fst (fold (paso_campo buscar texto) ps (d, st)) =
           d @ map (\<lambda>(clave, patron, ng). (clave, valor_campo patron ng texto)) ps"
proof (induction ps arbitrary: d st)
  case Nil
  then show ?case by simp
next
  case (Cons item ps)
  obtain clave patron ng where item: "item = (clave, patron, ng)" by (cases item)
  let ?d = "d @ [(clave, valor_campo patron ng texto)]"
  from Cons.prems item have k: "clave \<notin> fst ` set d" by auto
  have paso: "paso_campo buscar texto item (d, st) = (?d, snd (buscar st patron ng texto))"
    unfolding item by (simp only: paso_campo_valor [OF assms] dict_set_nuevo [OF k])
  from Cons.prems item have d: "distinct (map fst ps)" and i: "fst ` set ps \<inter> fst ` set ?d = {}"
    by auto
  show ?case
    by (simp only: fold_simps paso Cons.IH [OF d i]) (simp add: item)
qed

text \<open>
  Claim C6. Whatever state the library is in when \<^verbatim>\<open>analizar_contrato\<close> is called, and
  however each search changes that state, provided that the match a search returns depends
  only on the pattern and the text: the loop of the source returns the dictionary
  \<open>analizar_contrato texto\<close>; a second run on the same text, started in the state the first
  run left, returns the same dictionary as the first; and runs on equal texts started in
  any two states return equal dictionaries.
\<close>

theorem C6_extract_deterministic:
  assumes "\<forall>st patron ng texto. fst (buscar st patron ng texto) = re_search patron ng texto"
  shows "fst (analizar_contrato_re buscar texto st) = analizar_contrato texto \<and>
         fst (analizar_contrato_re buscar texto (snd (analizar_contrato_re buscar texto st))) =
           fst (analizar_contrato_re buscar texto st) \<and>
         (\<forall>st1 st2 texto1 texto2. texto1 = texto2 \<longrightarrow>
            fst (analizar_contrato_re buscar texto1 st1) =
            fst (analizar_contrato_re buscar texto2 st2))"
proof -
  have r: "fst (analizar_contrato_re buscar t s) = analizar_contrato t" for t s
    using fold_paso_campo [OF assms claves_distintas, of "[]" t s]
    by (simp add: analizar_contrato_re_def analizar_contrato_def)
  show ?thesis by (simp add: r)
qed

lemma cache_no_vacia:
  "ps \<noteq> [] \<or> snd ac \<noteq> [] \<Longrightarrow> snd (fold (paso_campo buscar_cache texto) ps ac) \<noteq> []"
proof (induction ps arbitrary: ac)
  case Nil
  then show ?case by simp
next
  case (Cons item ps)
  have "snd (paso_campo buscar_cache texto item ac) \<noteq> []"
    by (cases item; cases ac)
       (auto simp: paso_campo_def buscar_cache_def split: option.splits)
  then show ?case using Cons.IH [of "paso_campo buscar_cache texto item ac"] by simp
qed

theorem C6_extract_deterministic_witness:
  "fst (analizar_contrato_re buscar_cache ''Item 7'' []) = analizar_contrato ''Item 7'' \<and>
   snd (analizar_contrato_re buscar_cache ''Item 7'' []) \<noteq> [] \<and>
   fst (analizar_contrato_re buscar_cache ''Item 7''
          (snd (analizar_contrato_re buscar_cache ''Item 7'' []))) =
     fst (analizar_contrato_re buscar_cache ''Item 7'' [])"
proof -
  have h: "\<forall>st patron ng texto. fst (buscar_cache st patron ng texto) = re_search patron ng texto"
    by (simp add: buscar_cache_def)
  have c: "snd (analizar_contrato_re buscar_cache ''Item 7'' []) \<noteq> []"
    unfolding analizar_contrato_re_def by (rule cache_no_vacia) (simp add: patrones_def)
  note T = C6_extract_deterministic [OF h, of "''Item 7''" "[]"]
  from T [THEN conjunct1] c T [THEN conjunct2, THEN conjunct1]
  show ?thesis by (intro conjI)
qed

subsection \<open>The scenario of the contract number\<close>













section \<open>The batch\<close>

subsection \<open>Classification by name\<close>

lemma endswith_iff: "endswith s suf \<longleftrightarrow> (\<exists>pre. s = pre @ suf)"
proof
  assume "endswith s suf"
  then have "s = take (length s - length suf) s @ suf"
    by (metis append_take_drop_id endswith_def)
  then show "\<exists>pre. s = pre @ suf" ..
next
  assume "\<exists>pre. s = pre @ suf"
  then show "endswith s suf" by (auto simp: endswith_def)
qed

lemma startswith_iff: "startswith s pre \<longleftrightarrow> (\<exists>resto. s = pre @ resto)"
proof
  assume "startswith s pre"
  then have "s = pre @ drop (length pre) s"
    by (metis append_take_drop_id startswith_def)
  then show "\<exists>resto. s = pre @ resto" ..
next
  assume "\<exists>resto. s = pre @ resto"
  then show "startswith s pre" by (auto simp: startswith_def)
qed

lemma endswith_lower_iff:
  "endswith (lower s) suf \<longleftrightarrow> (\<exists>pre t. s = pre @ t \<and> map py_tolower t = suf)"
  by (auto simp: endswith_iff lower_def map_eq_append_conv)

lemma es_pdf_del_zip_iff:
  "es_pdf_del_zip item_name \<longleftrightarrow>
     (\<exists>pre suf. item_name = pre @ suf \<and> map py_tolower suf = ''.pdf'') \<and>
     \<not> (\<exists>resto. item_name = ''__MACOSX'' @ resto)"
  by (simp only: es_pdf_del_zip_def endswith_lower_iff startswith_iff)

text \<open>
  Claim C7. An uploaded file goes to the archive branch exactly when its name is some
  prefix followed by the four characters \<^verbatim>\<open>.zip\<close>, otherwise to the single-document
  branch exactly when its name is some prefix followed by \<^verbatim>\<open>.pdf\<close> (both compared
  character by character, so case matters), and otherwise the two lists are left as they
  are. A name inside an archive is processed exactly when it has a suffix whose lower-case
  form is \<^verbatim>\<open>.pdf\<close> and it does not begin with \<^verbatim>\<open>__MACOSX\<close>; otherwise the two lists are
  left as they are.
\<close>

theorem C7_suffix_classification:
  "procesar_archivo env file ac =
     (if \<exists>pre. filename file = pre @ ''.zip'' then procesar_zip env file ac
      else if \<exists>pre. filename file = pre @ ''.pdf'' then procesar_pdf env file ac
      else ac) \<and>
   procesar_item env nombre_archivo (item_name, leido) ac =
     (if (\<exists>pre suf. item_name = pre @ suf \<and> map py_tolower suf = ''.pdf'') \<and>
         \<not> (\<exists>resto. item_name = ''__MACOSX'' @ resto)
      then procesar_pdf_del_zip env nombre_archivo (item_name, leido) ac
      else ac)"
  by (simp add: procesar_archivo_def procesar_item_def endswith_iff es_pdf_del_zip_iff)

theorem C7_suffix_classification_witness:
  "procesar_archivo env_ej \<lparr>filename = ''A.PDF'', leer = Inr ''V''\<rparr> ([], []) = ([], []) \<and>
   procesar_archivo env_ej \<lparr>filename = ''a.pdf'', leer = Inr ''V''\<rparr> ([], []) =
     procesar_pdf env_ej \<lparr>filename = ''a.pdf'', leer = Inr ''V''\<rparr> ([], []) \<and>
   procesar_archivo env_ej \<lparr>filename = ''lote.ZIP'', leer = Inr ''Z''\<rparr> ([], []) = ([], []) \<and>
   procesar_archivo env_ej \<lparr>filename = ''lote.zip'', leer = Inr ''Z''\<rparr> ([], []) =
     procesar_zip env_ej \<lparr>filename = ''lote.zip'', leer = Inr ''Z''\<rparr> ([], []) \<and>
   procesar_item env_ej ''lote.zip'' (''B.PDF'', Inr ''V'') ([], []) =
     procesar_pdf_del_zip env_ej ''lote.zip'' (''B.PDF'', Inr ''V'') ([], []) \<and>
   procesar_item env_ej ''lote.zip'' (''__MACOSX/._sample.pdf'', Inr ''V'') ([], []) = ([], []) \<and>
   procesar_item env_ej ''lote.zip'' (''notes.txt'', Inr ''V'') ([], []) = ([], [])"
proof -
  have z: "\<And>s. (\<exists>pre. s = pre @ ''.zip'') = endswith s ''.zip''"
    and p: "\<And>s. (\<exists>pre. s = pre @ ''.pdf'') = endswith s ''.pdf''"
    by (simp_all add: endswith_iff)
  have i: "\<And>n. ((\<exists>pre suf. n = pre @ suf \<and> map py_tolower suf = ''.pdf'') \<and>
                 \<not> (\<exists>resto. n = ''__MACOSX'' @ resto)) = es_pdf_del_zip n"
    by (simp add: es_pdf_del_zip_iff)
  have e1: "\<not> endswith ''A.PDF'' ''.zip''" "\<not> endswith ''A.PDF'' ''.pdf''"
    "\<not> endswith ''a.pdf'' ''.zip''" "endswith ''a.pdf'' ''.pdf''"
    "\<not> endswith ''lote.ZIP'' ''.zip''" "\<not> endswith ''lote.ZIP'' ''.pdf''"
    "endswith ''lote.zip'' ''.zip''"
    by (simp_all add: endswith_def)
  have e2: "es_pdf_del_zip ''B.PDF''" "\<not> es_pdf_del_zip ''__MACOSX/._sample.pdf''"
    "\<not> es_pdf_del_zip ''notes.txt''"
    by code_simp+
  note T = C7_suffix_classification [unfolded z p i]
  show ?thesis
    using T [of env_ej "\<lparr>filename = ''A.PDF'', leer = Inr ''V''\<rparr>" "([], [])", THEN conjunct1]
      T [of env_ej "\<lparr>filename = ''a.pdf'', leer = Inr ''V''\<rparr>" "([], [])", THEN conjunct1]
      T [of env_ej "\<lparr>filename = ''lote.ZIP'', leer = Inr ''Z''\<rparr>" "([], [])", THEN conjunct1]
      T [of env_ej "\<lparr>filename = ''lote.zip'', leer = Inr ''Z''\<rparr>" "([], [])", THEN conjunct1]
      T [of env_ej _ "([], [])" "''lote.zip''" "''B.PDF''" "Inr ''V''", THEN conjunct2]
      T [of env_ej _ "([], [])" "''lote.zip''" "''__MACOSX/._sample.pdf''" "Inr ''V''",
         THEN conjunct2]
      T [of env_ej _ "([], [])" "''lote.zip''" "''notes.txt''" "Inr ''V''", THEN conjunct2]
    by (simp add: e1 e2)
qed

subsection \<open>What each upload adds to the two lists\<close>

lemma procesar_pdf_del_zip_aporte:
  "procesar_pdf_del_zip env z item (oks, errs) =
     (oks @ fst (procesar_pdf_del_zip env z item ([], [])),
      errs @ snd (procesar_pdf_del_zip env z item ([], [])))"
  by (cases item) (auto simp: procesar_pdf_del_zip_def split: sum.splits prod.splits)

lemma procesar_pdf_del_zip_uno:
  "length (fst (procesar_pdf_del_zip env z item ([], []))) +
   length (snd (procesar_pdf_del_zip env z item ([], []))) = 1"
  by (cases item) (auto simp: procesar_pdf_del_zip_def split: sum.splits prod.splits)

lemma procesar_item_aporte:
  "procesar_item env z item (oks, errs) =
     (oks @ fst (procesar_item env z item ([], [])),
      errs @ snd (procesar_item env z item ([], [])))"
  using procesar_pdf_del_zip_aporte [of env z item oks errs]
  by (simp add: procesar_item_def)

lemma procesar_item_cuenta:
  "length (fst (procesar_item env z item ([], []))) +
   length (snd (procesar_item env z item ([], []))) =
     (if es_pdf_del_zip (fst item) then 1 else 0)"
  using procesar_pdf_del_zip_uno [of env z item]
  by (simp add: procesar_item_def)

lemma fold_procesar_item:
  "fold (procesar_item env z) items (oks, errs) =
     (oks @ concat (map (\<lambda>i. fst (procesar_item env z i ([], []))) items),
      errs @ concat (map (\<lambda>i. snd (procesar_item env z i ([], []))) items))"
proof (induction items arbitrary: oks errs)
  case Nil
  then show ?case by simp
next
  case (Cons i items)
  show ?case
    by (simp only: fold_simps procesar_item_aporte [of env z i oks errs] Cons.IH
          list.map concat.simps append_assoc)
qed

lemma procesar_pdf_aporte:
  "procesar_pdf env f (oks, errs) =
     (oks @ fst (procesar_pdf env f ([], [])), errs @ snd (procesar_pdf env f ([], [])))"
  by (auto simp: procesar_pdf_def Let_def split: sum.splits prod.splits)

lemma procesar_pdf_uno:
  "length (fst (procesar_pdf env f ([], []))) + length (snd (procesar_pdf env f ([], []))) = 1"
  by (auto simp: procesar_pdf_def Let_def split: sum.splits prod.splits)

lemma procesar_zip_aporte:
  "procesar_zip env f (oks, errs) =
     (oks @ fst (procesar_zip env f ([], [])), errs @ snd (procesar_zip env f ([], [])))"
  by (auto simp: procesar_zip_def Let_def fold_procesar_item [of env _ _ oks errs]
        fold_procesar_item [of env _ _ "[]" "[]"] split: sum.splits)

lemma procesar_archivo_aporte:
  "procesar_archivo env f (oks, errs) =
     (oks @ fst (procesar_archivo env f ([], [])), errs @ snd (procesar_archivo env f ([], [])))"
  using procesar_zip_aporte [of env f oks errs] procesar_pdf_aporte [of env f oks errs]
  by (simp add: procesar_archivo_def)

lemma fold_procesar_archivo:
  "fold (procesar_archivo env) files (oks, errs) =
     (oks @ concat (map (\<lambda>f. fst (procesar_archivo env f ([], []))) files),
      errs @ concat (map (\<lambda>f. snd (procesar_archivo env f ([], []))) files))"
proof (induction files arbitrary: oks errs)
  case Nil
  then show ?case by simp
next
  case (Cons f files)
  show ?case
    by (simp only: fold_simps procesar_archivo_aporte [of env f oks errs] Cons.IH
          list.map concat.simps append_assoc)
qed

lemma procesar_lote_concat:
  "procesar_lote env files =
     (concat (map (\<lambda>f. fst (procesar_archivo env f ([], []))) files),
      concat (map (\<lambda>f. snd (procesar_archivo env f ([], []))) files))"
  using fold_procesar_archivo [of env files "[]" "[]"] by (simp add: procesar_lote_def)

lemma procesar_zip_casos:
  "(case leer f of
      Inl e \<Rightarrow> procesar_zip env f ([], []) = ([], [error_zip (filename f) e])
    | Inr b \<Rightarrow>
        if \<not> is_zipfile env b then procesar_zip env f ([], []) = ([], [zip_no_valido (filename f)])
        else (case zip_file env b of
                Inl e \<Rightarrow> procesar_zip env f ([], []) = ([], [error_zip (filename f) e])
              | Inr items \<Rightarrow>
                  procesar_zip env f ([], []) =
                    (concat (map (\<lambda>i. fst (procesar_item env (filename f) i ([], []))) items),
                     concat (map (\<lambda>i. snd (procesar_item env (filename f) i ([], []))) items))))"
  by (auto simp: procesar_zip_def Let_def fold_procesar_item [of env _ _ "[]" "[]"]
        split: sum.splits)

lemma aportes_ok_ej:
  "map (\<lambda>r. map_of r ''Archivo'')
     (concat (map (\<lambda>f. fst (procesar_archivo env_ej f ([], []))) lote_ej)) =
   [Some ''sample.pdf'', Some ''v.pdf'']"
  by code_simp

lemma aportes_err_ej:
  "concat (map (\<lambda>f. snd (procesar_archivo env_ej f ([], []))) lote_ej) =
   [''Error en '' @ comilla ''B.PDF'' @ '' (dentro de lote.zip): ''
      @ error_critico ''cannot open broken document'',
    error_procesando ''roto.pdf'' ''lote.zip'' ''Bad CRC-32'',
    comilla ''roto.pdf'' @ '': '' @ error_critico ''cannot open broken document'',
    zip_no_valido ''malo.zip'']"
  by code_simp

lemma nota_en_lote: "\<lparr>filename = ''nota.txt'', leer = Inr ''hola''\<rparr> \<in> set lote_ej"
  by (simp add: lote_ej_def)

lemma nota_sufijos: "\<not> endswith ''nota.txt'' ''.zip''" "\<not> endswith ''nota.txt'' ''.pdf''"
  by (simp_all add: endswith_def)

lemma lote_fallido_ok: "fst (procesar_lote env_ej lote_fallido) = []"
  by code_simp

lemma lote_fallido_err:
  "snd (procesar_lote env_ej lote_fallido) =
     [comilla ''roto.pdf'' @ '': '' @ error_critico ''cannot open broken document'',
      zip_no_valido ''malo.zip'']"
  by code_simp

text \<open>
  Claim C8. The two lists at the end of the run are the concatenation, in upload order, of
  what each upload adds on its own, so no failure stops the files after it. An upload named
  \<^verbatim>\<open>.pdf\<close> (and not \<^verbatim>\<open>.zip\<close>) adds exactly one item, to exactly one of the two lists. An
  upload named \<^verbatim>\<open>.zip\<close> that cannot be read, is no archive or cannot be opened adds exactly
  one error and no record; one that opens adds, in the order of the names, what each name
  adds, and a name adds exactly one item to exactly one list if it passes the filter on
  names and nothing otherwise. Any other upload adds nothing. An upload that adds nothing
  to either list is therefore not named \<^verbatim>\<open>.pdf\<close>, and if it is named \<^verbatim>\<open>.zip\<close> it is an
  archive that opens and holds no name that passes the filter.
\<close>

theorem C8_batch_outcome_invariant:
  "procesar_lote env files =
     (concat (map (\<lambda>f. fst (procesar_archivo env f ([], []))) files),
      concat (map (\<lambda>f. snd (procesar_archivo env f ([], []))) files)) \<and>
   (\<forall>f\<in>set files.
      if endswith (filename f) ''.zip'' then
        (case leer f of
           Inl e \<Rightarrow> procesar_archivo env f ([], []) = ([], [error_zip (filename f) e])
         | Inr b \<Rightarrow>
             if \<not> is_zipfile env b
             then procesar_archivo env f ([], []) = ([], [zip_no_valido (filename f)])
             else
               (case zip_file env b of
                  Inl e \<Rightarrow> procesar_archivo env f ([], []) = ([], [error_zip (filename f) e])
                | Inr items \<Rightarrow>
                    procesar_archivo env f ([], []) =
                      (concat (map (\<lambda>i. fst (procesar_item env (filename f) i ([], []))) items),
                       concat (map (\<lambda>i. snd (procesar_item env (filename f) i ([], []))) items))
                    \<and>
                    (\<forall>i\<in>set items.
                       length (fst (procesar_item env (filename f) i ([], []))) +
                       length (snd (procesar_item env (filename f) i ([], []))) =
                         (if es_pdf_del_zip (fst i) then 1 else 0))))
      else if endswith (filename f) ''.pdf'' then
        length (fst (procesar_archivo env f ([], []))) +
        length (snd (procesar_archivo env f ([], []))) = 1
      else procesar_archivo env f ([], []) = ([], [])) \<and>
   (\<forall>f\<in>set files.
      procesar_archivo env f ([], []) = ([], []) \<longrightarrow>
        (if endswith (filename f) ''.zip''
         then \<exists>b items. leer f = Inr b \<and> is_zipfile env b \<and> zip_file env b = Inr items \<and>
                (\<forall>i\<in>set items. \<not> es_pdf_del_zip (fst i))
         else \<not> endswith (filename f) ''.pdf''))"
proof (intro conjI ballI)
  show "procesar_lote env files =
     (concat (map (\<lambda>f. fst (procesar_archivo env f ([], []))) files),
      concat (map (\<lambda>f. snd (procesar_archivo env f ([], []))) files))"
    by (rule procesar_lote_concat)
next
  fix f
  assume "f \<in> set files"
  show "if endswith (filename f) ''.zip'' then
        (case leer f of
           Inl e \<Rightarrow> procesar_archivo env f ([], []) = ([], [error_zip (filename f) e])
         | Inr b \<Rightarrow>
             if \<not> is_zipfile env b
             then procesar_archivo env f ([], []) = ([], [zip_no_valido (filename f)])
             else
               (case zip_file env b of
                  Inl e \<Rightarrow> procesar_archivo env f ([], []) = ([], [error_zip (filename f) e])
                | Inr items \<Rightarrow>
                    procesar_archivo env f ([], []) =
                      (concat (map (\<lambda>i. fst (procesar_item env (filename f) i ([], []))) items),
                       concat (map (\<lambda>i. snd (procesar_item env (filename f) i ([], []))) items))
                    \<and>
                    (\<forall>i\<in>set items.
                       length (fst (procesar_item env (filename f) i ([], []))) +
                       length (snd (procesar_item env (filename f) i ([], []))) =
                         (if es_pdf_del_zip (fst i) then 1 else 0))))
      else if endswith (filename f) ''.pdf'' then
        length (fst (procesar_archivo env f ([], []))) +
        length (snd (procesar_archivo env f ([], []))) = 1
      else procesar_archivo env f ([], []) = ([], [])"
    using procesar_zip_casos [of env f] procesar_pdf_uno [of env f]
    by (auto simp: procesar_archivo_def procesar_item_cuenta split: sum.splits)
next
  fix f
  assume "f \<in> set files"
  show "procesar_archivo env f ([], []) = ([], []) \<longrightarrow>
        (if endswith (filename f) ''.zip''
         then \<exists>b items. leer f = Inr b \<and> is_zipfile env b \<and> zip_file env b = Inr items \<and>
                (\<forall>i\<in>set items. \<not> es_pdf_del_zip (fst i))
         else \<not> endswith (filename f) ''.pdf'')"
  proof
    assume v: "procesar_archivo env f ([], []) = ([], [])"
    show "if endswith (filename f) ''.zip''
         then \<exists>b items. leer f = Inr b \<and> is_zipfile env b \<and> zip_file env b = Inr items \<and>
                (\<forall>i\<in>set items. \<not> es_pdf_del_zip (fst i))
         else \<not> endswith (filename f) ''.pdf''"
    proof (cases "endswith (filename f) ''.zip''")
      case True
      with v have z: "procesar_zip env f ([], []) = ([], [])"
        by (simp add: procesar_archivo_def)
      from procesar_zip_casos [of env f] z
      obtain b items where b: "leer f = Inr b" "is_zipfile env b" "zip_file env b = Inr items"
        and c: "concat (map (\<lambda>i. fst (procesar_item env (filename f) i ([], []))) items) = []"
               "concat (map (\<lambda>i. snd (procesar_item env (filename f) i ([], []))) items) = []"
        by (auto split: sum.splits if_splits)
      have "\<forall>i\<in>set items. \<not> es_pdf_del_zip (fst i)"
      proof
        fix i
        assume i: "i \<in> set items"
        with c have "fst (procesar_item env (filename f) i ([], [])) = []"
          "snd (procesar_item env (filename f) i ([], [])) = []"
          by auto
        with procesar_item_cuenta [of env "filename f" i]
        show "\<not> es_pdf_del_zip (fst i)" by (auto split: if_splits)
      qed
      with b True show ?thesis by auto
    next
      case False
      show ?thesis
      proof (cases "endswith (filename f) ''.pdf''")
        case True
        with False v have "procesar_pdf env f ([], []) = ([], [])"
          by (simp add: procesar_archivo_def)
        with procesar_pdf_uno [of env f] show ?thesis by simp
      next
        case no: False
        with False show ?thesis by simp
      qed
    qed
  qed
qed

theorem C8_batch_outcome_invariant_witness:
  "map (\<lambda>r. map_of r ''Archivo'') (fst (procesar_lote env_ej lote_ej)) =
     [Some ''sample.pdf'', Some ''v.pdf''] \<and>
   snd (procesar_lote env_ej lote_ej) =
     [''Error en '' @ comilla ''B.PDF'' @ '' (dentro de lote.zip): ''
        @ error_critico ''cannot open broken document'',
      error_procesando ''roto.pdf'' ''lote.zip'' ''Bad CRC-32'',
      comilla ''roto.pdf'' @ '': '' @ error_critico ''cannot open broken document'',
      zip_no_valido ''malo.zip''] \<and>
   procesar_archivo env_ej \<lparr>filename = ''nota.txt'', leer = Inr ''hola''\<rparr> ([], []) = ([], [])"
proof -
  note T = C8_batch_outcome_invariant [of env_ej lote_ej]
  from T have L: "procesar_lote env_ej lote_ej =
     (concat (map (\<lambda>f. fst (procesar_archivo env_ej f ([], []))) lote_ej),
      concat (map (\<lambda>f. snd (procesar_archivo env_ej f ([], []))) lote_ej))"
    by (rule conjunct1)
  from T [THEN conjunct2, THEN conjunct1, THEN bspec, OF nota_en_lote]
  have N: "procesar_archivo env_ej \<lparr>filename = ''nota.txt'', leer = Inr ''hola''\<rparr> ([], []) = ([], [])"
    by (simp add: nota_sufijos)
  have a: "map (\<lambda>r. map_of r ''Archivo'') (fst (procesar_lote env_ej lote_ej)) =
             [Some ''sample.pdf'', Some ''v.pdf'']"
    by (simp only: L fst_conv aportes_ok_ej)
  have b: "snd (procesar_lote env_ej lote_ej) =
     [''Error en '' @ comilla ''B.PDF'' @ '' (dentro de lote.zip): ''
        @ error_critico ''cannot open broken document'',
      error_procesando ''roto.pdf'' ''lote.zip'' ''Bad CRC-32'',
      comilla ''roto.pdf'' @ '': '' @ error_critico ''cannot open broken document'',
      zip_no_valido ''malo.zip'']"
    by (simp only: L snd_conv aportes_err_ej)
  from a b N show ?thesis by (intro conjI)
qed

text \<open>
  Claim C9. For every batch that ends with \<^verbatim>\<open>resultados_ok\<close> empty, the response has
  \<^verbatim>\<open>success = False\<close>, no table, and as \<^verbatim>\<open>errors\<close> the fixed first line followed by the
  whole list \<^verbatim>\<open>errores_proceso\<close>, so every collected error is in the response.
\<close>

theorem C9_empty_batch_failure:
  assumes "fst (procesar_lote env files) = []"
  shows "success (process_files env (Some files)) = False \<and>
         errors (process_files env (Some files)) = sin_resultados # snd (procesar_lote env files) \<and>
         set (snd (procesar_lote env files)) \<subseteq> set (errors (process_files env (Some files))) \<and>
         tabla (process_files env (Some files)) = None"
  using assms by (cases "procesar_lote env files") (auto simp: process_files_def)

theorem C9_empty_batch_failure_witness:
  "success (process_files env_ej (Some lote_fallido)) = False \<and>
   errors (process_files env_ej (Some lote_fallido)) =
     [sin_resultados,
      comilla ''roto.pdf'' @ '': '' @ error_critico ''cannot open broken document'',
      zip_no_valido ''malo.zip''] \<and>
   tabla (process_files env_ej (Some lote_fallido)) = None"
  using C9_empty_batch_failure [OF lote_fallido_ok]
  by (simp only: lote_fallido_err simp_thms)

end
